theory Spec2Isabelle
  imports Main
begin

section \<open>Exceptions, effects and the process-wide state\<close>

text \<open>
  Every exception the modelled code can raise is a value. \<open>HTTPException\<close> carries the
  status code and the detail; the other constructors are Python exceptions that no handler
  of the application catches, so the framework turns them into a 500 response.
  \<open>ServiceError\<close> stands for whatever the generative-AI client raises,
  \<open>ResponseValidationError\<close> for an object that does not fit the route's response model.
\<close>

datatype exn =
    HTTPException int string
  | ValueError string
  | TypeError string
  | AttributeError string
  | NoResultFound
  | MultipleResultsFound
  | ServiceError string
  | ResponseValidationError string

datatype event = Print string | Sleep nat

section \<open>The generative-AI collaborator (\<open>app/ai_tools.py\<close>)\<close>

text \<open>
  A safety rating carries the integer codes of its category and of its probability tier,
  as the client library's enums do. A response may lack the attribute \<open>candidates\<close>
  (\<open>None\<close>); its \<open>text\<close> accessor may raise (\<open>None\<close>).
\<close>

record rating =
  category :: int
  probability :: int

record candidate =
  safety_ratings :: "rating list"

record response =
  candidates :: "candidate list option"
  resp_text :: "string option"

text \<open>
  \<open>model.generate_content\<close> is an external service. Its behaviour is a parameter: what
  the call number \<open>n\<close> of the process (counted from 0) answers to a prompt, an exception
  message (\<open>Inl\<close>) or a response (\<open>Inr\<close>).
\<close>

type_synonym genai = "nat \<Rightarrow> string \<Rightarrow> string + response"

section \<open>Persistence models (\<open>app/models.py\<close>)\<close>

text \<open>
  The columns the routers and the worker read or write. The timestamps \<open>created_at\<close> and
  \<open>updated_at\<close> are left out: nothing modelled here reads them. \<open>post_id\<close> and
  \<open>parent_id\<close> of a comment are nullable foreign keys.
\<close>

record user =
  u_id :: int
  is_superuser :: bool

record post =
  p_id :: int
  title :: string
  p_content :: string
  p_author_id :: int
  p_is_blocked :: bool
  p_block_reason :: string
  auto_reply_enabled :: bool
  reply_delay :: int

record comment =
  c_id :: int
  c_post_id :: "int option"
  parent_id :: "int option"
  c_content :: string
  c_author_id :: int
  c_is_blocked :: bool
  c_block_reason :: string

text \<open>
  The committed tables with their primary-key sequences, the task broker's queue of
  \<open>(post_id, comment_id, countdown)\<close>, the number of calls made to the AI service so far,
  and what the process printed or slept.
\<close>

record world =
  posts :: "post list"
  comments :: "comment list"
  posts_id_seq :: int
  comments_id_seq :: int
  broker :: "(int \<times> int \<times> int) list"
  ai_calls :: nat
  events :: "event list"

section \<open>The moderation gate (\<open>moderate_content_with_ai\<close>)\<close>

definition safety_categories :: "int \<rightharpoonup> string" where
  "safety_categories = map_of
     [(7, ''HARM_CATEGORY_HARASSMENT''),
      (8, ''HARM_CATEGORY_HATE_SPEECH''),
      (9, ''HARM_CATEGORY_SEXUALLY_EXPLICIT''),
      (10, ''HARM_CATEGORY_DANGEROUS_CONTENT'')]"

definition text_proc :: "string \<Rightarrow> string" where
  "text_proc text =
     ''Please check the following text for obscene language and insults: ''
       @ [CHR 0x22] @ text @ [CHR 0x22]"

text \<open>
  The retry loop \<open>while count <= 3 and not response\<close>. Each pass calls the service once;
  a pass that raises prints the message and sleeps 5 seconds. A response object is truthy.
\<close>

function generate_loop ::
  "genai \<Rightarrow> string \<Rightarrow> nat \<Rightarrow> response option \<Rightarrow> world \<Rightarrow> response option \<times> world" where
  "generate_loop model prompt count resp w =
     (if count \<le> 3 \<and> resp = None then
        (case model (ai_calls w) prompt of
           Inr r \<Rightarrow>
             generate_loop model prompt (count + 1) (Some r) (w\<lparr>ai_calls := ai_calls w + 1\<rparr>)
         | Inl e \<Rightarrow>
             generate_loop model prompt (count + 1) None
               (w\<lparr>ai_calls := ai_calls w + 1,
                  events := events w @ [Print (''Error while AI text proceeds:  '' @ e), Sleep 5]\<rparr>))
      else (resp, w))"
  by pat_completeness auto
termination
  by (relation "measure (\<lambda>(model, prompt, count, resp, w). 4 - count)") auto

declare generate_loop.simps [simp del]

text \<open>The inner loop over one candidate's ratings: the first rating at tier 2 or above.\<close>

fun ratings_loop :: "rating list \<Rightarrow> (bool \<times> string) option" where
  "ratings_loop [] = None"
| "ratings_loop (r # rs) =
     (let category_name =
            (case safety_categories (category r) of
               Some name \<Rightarrow> name | None \<Rightarrow> ''UNKNOWN_CATEGORY'')
      in if probability r \<ge> 2 then Some (True, category_name) else ratings_loop rs)"

text \<open>
  The outer loop over the candidates. \<open>return False, ""\<close> stands in the body of the outer
  \<open>for\<close>, after the inner one, so the first pass returns and no later candidate is reached.
  An empty candidate list is falsy and takes the \<open>else\<close> branch.
\<close>

fun inspect_candidates :: "candidate list \<Rightarrow> bool \<times> string" where
  "inspect_candidates [] = (False, '''')"
| "inspect_candidates (c # cs) =
     (case ratings_loop (safety_ratings c) of
        Some verdict \<Rightarrow> verdict
      | None \<Rightarrow> (False, ''''))"

definition moderate_content_with_ai ::
  "genai \<Rightarrow> string \<Rightarrow> world \<Rightarrow> (bool \<times> string) \<times> world" where
  "moderate_content_with_ai model text w =
     (case generate_loop model (text_proc text) 0 None w of
        (None, w') \<Rightarrow>
          ((True, ''Error while AI text proceeds''),
           w'\<lparr>events := events w' @
              [Print ''Content has been blocked because of AI-moderation is not available'']\<rparr>)
      | (Some r, w') \<Rightarrow>
          (case candidates r of
             Some cs \<Rightarrow> (inspect_candidates cs, w')
           | None \<Rightarrow> ((False, ''''), w')))"

text \<open>
  What the documentation of the gate describes, for comparison: every rating of every
  candidate is looked at, in order.
\<close>

fun inspect_all_candidates :: "candidate list \<Rightarrow> bool \<times> string" where
  "inspect_all_candidates [] = (False, '''')"
| "inspect_all_candidates (c # cs) =
     (case ratings_loop (safety_ratings c) of
        Some verdict \<Rightarrow> verdict
      | None \<Rightarrow> inspect_all_candidates cs)"

section \<open>Request bodies (\<open>app/schemas\<close>) and responses\<close>

text \<open>
  The dependency \<open>moderate_content\<close> parses the body as \<open>PostCreate | CommentCreate\<close>,
  so a handler may receive either. \<open>auto_reply_enabled\<close> and \<open>reply_delay\<close> are
  \<open>None\<close> when the request did not set them: \<open>dict()\<close> fills in the defaults
  \<open>False\<close> and \<open>0\<close>, \<open>dict(exclude_unset=True)\<close> leaves them out.
\<close>

datatype body =
    PostCreate string string "bool option" "int option"
  | CommentCreate string "int option"

text \<open>
  A handler answers with the object itself (serialised through the response model) or
  with a ready-made \<open>JSONResponse\<close> holding a detail and a status code.
\<close>

datatype 'a reply = Obj 'a | JSONResponse string int

fun body_content :: "body \<Rightarrow> string" where
  "body_content (PostCreate t c a d) = c"
| "body_content (CommentCreate c p) = c"

fun body_parent_id :: "body \<Rightarrow> exn + int option" where
  "body_parent_id (PostCreate t c a d) =
     Inl (AttributeError ''PostCreate object has no attribute parent_id'')"
| "body_parent_id (CommentCreate c p) = Inr p"

text \<open>
  The response models \<open>CommentOut\<close> and \<open>PostOut\<close> (without \<open>created_at\<close>, see
  above). A route that declares one serialises the returned object through it: every field
  is read off the row, and \<open>CommentOut.post_id\<close> is a plain \<open>int\<close>, so a comment whose
  \<open>post_id\<close> is NULL does not fit.
\<close>

record CommentOut =
  co_post_id :: int
  co_parent_id :: "int option"
  co_id :: int
  co_author_id :: int
  co_is_blocked :: bool
  co_block_reason :: string
  co_content :: string

record PostOut =
  po_title :: string
  po_content :: string
  po_id :: int
  po_author_id :: int
  po_auto_reply_enabled :: bool
  po_reply_delay :: int
  po_is_blocked :: bool
  po_block_reason :: string

definition CommentOut_from_orm :: "comment \<Rightarrow> exn + CommentOut" where
  "CommentOut_from_orm c =
     (case c_post_id c of
        None \<Rightarrow> Inl (ResponseValidationError ''post_id: none is not an allowed value'')
      | Some i \<Rightarrow>
          Inr \<lparr>co_post_id = i, co_parent_id = parent_id c, co_id = c_id c,
               co_author_id = c_author_id c, co_is_blocked = c_is_blocked c,
               co_block_reason = c_block_reason c, co_content = c_content c\<rparr>)"

definition PostOut_from_orm :: "post \<Rightarrow> PostOut" where
  "PostOut_from_orm p =
     \<lparr>po_title = title p, po_content = p_content p, po_id = p_id p,
      po_author_id = p_author_id p, po_auto_reply_enabled = auto_reply_enabled p,
      po_reply_delay = reply_delay p, po_is_blocked = p_is_blocked p,
      po_block_reason = p_block_reason p\<rparr>"

section \<open>The validators of \<open>Post\<close> and \<open>Comment\<close>\<close>

text \<open>
  Strings are sequences of code points below 256; \<open>isspace\<close> lists the ones Python's
  \<open>str.strip\<close> removes.
\<close>

definition isspace :: "char \<Rightarrow> bool" where
  "isspace ch = (ch \<in> set [CHR 0x09, CHR 0x0A, CHR 0x0B, CHR 0x0C, CHR 0x0D, CHR 0x1C,
                            CHR 0x1D, CHR 0x1E, CHR 0x1F, CHR 0x20, CHR 0x85, CHR 0xA0])"

definition strip :: "string \<Rightarrow> string" where
  "strip s = rev (dropWhile isspace (rev (dropWhile isspace s)))"

text \<open>
  \<open>validate_non_empty_string\<close>; the key arrives capitalised, as the message shows it
  (\<open>Title\<close>, \<open>Content\<close>).
\<close>

definition validate_non_empty_string :: "string \<Rightarrow> string \<Rightarrow> exn + string" where
  "validate_non_empty_string Key v =
     (if v = [] \<or> strip v = [] then Inl (ValueError (Key @ '' cannot be an empty string.''))
      else Inr v)"

section \<open>Helpers of the routers (\<open>app/routers/tools.py\<close>)\<close>

definition moderate_content :: "genai \<Rightarrow> body \<Rightarrow> world \<Rightarrow> (body \<times> bool \<times> string) \<times> world" where
  "moderate_content model data w =
     (case data of
        PostCreate t c a d \<Rightarrow>
          (case moderate_content_with_ai model t w of
             ((is_blocked, block_reason), w1) \<Rightarrow>
               if is_blocked then ((data, is_blocked, block_reason), w1)
               else (case moderate_content_with_ai model c w1 of
                       ((is_blocked2, block_reason2), w2) \<Rightarrow>
                         ((data, is_blocked2, block_reason2), w2)))
      | CommentCreate c p \<Rightarrow>
          (case moderate_content_with_ai model c w of
             ((is_blocked, block_reason), w1) \<Rightarrow> ((data, is_blocked, block_reason), w1)))"

definition check_post_blocked :: "post \<Rightarrow> exn + unit" where
  "check_post_blocked p =
     (if p_is_blocked p
      then Inl (HTTPException 403 ''You cannot create a comment for blocked content.'')
      else Inr ())"

definition check_parent_comment_blocked :: "int \<Rightarrow> world \<Rightarrow> exn + unit" where
  "check_parent_comment_blocked pid w =
     (case filter (\<lambda>c. c_id c = pid) (comments w) of
        [] \<Rightarrow> Inl (HTTPException 404 ''Parent comment not found.'')
      | parent_comment # _ \<Rightarrow>
          if c_is_blocked parent_comment
          then Inl (HTTPException 403 ''You cannot create a comment for blocked content.'')
          else Inr ())"

definition blocked_detail :: "string \<Rightarrow> string" where
  "blocked_detail reason =
     ''Content was blocked, reason - it contains inappropriate content: '' @ reason"

text \<open>\<open>check_blocked_obj_content\<close>, once for each of the two classes it is called with.\<close>

definition check_blocked_comment_content :: "comment \<Rightarrow> comment reply" where
  "check_blocked_comment_content obj =
     (if c_is_blocked obj then JSONResponse (blocked_detail (c_block_reason obj)) 400
      else Obj obj)"

definition check_blocked_post_content :: "post \<Rightarrow> post reply" where
  "check_blocked_post_content obj =
     (if p_is_blocked obj then JSONResponse (blocked_detail (p_block_reason obj)) 400
      else Obj obj)"

text \<open>
  \<open>create_new_comment\<close>. The arguments of the constructor are read first
  (\<open>comment.parent_id\<close> does not exist on a \<open>PostCreate\<close>), then the constructor runs the
  validator of \<open>content\<close>; both happen before the \<open>try\<close>, so their exceptions are not
  turned into a 422. The store accepts every insert and hands out the next key of the
  sequence.
\<close>

definition create_new_comment ::
  "world \<Rightarrow> body \<Rightarrow> int \<Rightarrow> user \<Rightarrow> bool \<Rightarrow> string \<Rightarrow> (exn + comment reply) \<times> world" where
  "create_new_comment w cmt post_id current_user is_blocked block_reason =
     (case body_parent_id cmt of
        Inl e \<Rightarrow> (Inl e, w)
      | Inr par \<Rightarrow>
          (case validate_non_empty_string ''Content'' (body_content cmt) of
             Inl e \<Rightarrow> (Inl e, w)
           | Inr v \<Rightarrow>
               (let new_comment =
                      \<lparr>c_id = comments_id_seq w, c_post_id = Some post_id, parent_id = par,
                       c_content = v, c_author_id = u_id current_user,
                       c_is_blocked = is_blocked, c_block_reason = block_reason\<rparr>
                in (Inr (check_blocked_comment_content new_comment),
                    w\<lparr>comments := comments w @ [new_comment],
                       comments_id_seq := comments_id_seq w + 1\<rparr>))))"

text \<open>
  \<open>create_new_post\<close>. The constructor sets the keys of \<open>post.dict()\<close> in order inside
  the \<open>try\<close>: a \<open>ValueError\<close> of a validator becomes a 422; the key \<open>parent_id\<close> of a
  \<open>CommentCreate\<close> is no attribute of \<open>Post\<close> and raises a \<open>TypeError\<close>, which is not
  caught.
\<close>

definition except_ValueError :: "exn \<Rightarrow> exn" where
  "except_ValueError e = (case e of ValueError m \<Rightarrow> HTTPException 422 m | _ \<Rightarrow> e)"

definition create_new_post ::
  "world \<Rightarrow> body \<Rightarrow> user \<Rightarrow> bool \<Rightarrow> string \<Rightarrow> (exn + post reply) \<times> world" where
  "create_new_post w pst current_user is_blocked block_reason =
     (case pst of
        PostCreate t c a d \<Rightarrow>
          (case validate_non_empty_string ''Title'' t of
             Inl e \<Rightarrow> (Inl (except_ValueError e), w)
           | Inr t' \<Rightarrow>
               (case validate_non_empty_string ''Content'' c of
                  Inl e \<Rightarrow> (Inl (except_ValueError e), w)
                | Inr c' \<Rightarrow>
                    (let new_post =
                           \<lparr>p_id = posts_id_seq w, title = t', p_content = c',
                            p_author_id = u_id current_user, p_is_blocked = is_blocked,
                            p_block_reason = block_reason,
                            auto_reply_enabled = (case a of None \<Rightarrow> False | Some x \<Rightarrow> x),
                            reply_delay = (case d of None \<Rightarrow> 0 | Some x \<Rightarrow> x)\<rparr>
                     in (Inr (check_blocked_post_content new_post),
                         w\<lparr>posts := posts w @ [new_post],
                            posts_id_seq := posts_id_seq w + 1\<rparr>))))
      | CommentCreate c p \<Rightarrow>
          (case validate_non_empty_string ''Content'' c of
             Inl e \<Rightarrow> (Inl (except_ValueError e), w)
           | Inr c' \<Rightarrow>
               (Inl (except_ValueError
                       (TypeError ''parent_id is an invalid keyword argument for Post'')), w)))"

text \<open>
  \<open>schedule_auto_reply_if_enabled\<close>. The second argument is what \<open>create_new_comment\<close>
  returned; reading \<open>is_blocked\<close> from a \<open>JSONResponse\<close> would raise.
\<close>

definition schedule_auto_reply_if_enabled :: "post \<Rightarrow> comment reply \<Rightarrow> world \<Rightarrow> exn + world" where
  "schedule_auto_reply_if_enabled p cmt w =
     (if auto_reply_enabled p then
        (case cmt of
           JSONResponse detail code \<Rightarrow>
             Inl (AttributeError ''JSONResponse object has no attribute is_blocked'')
         | Obj c \<Rightarrow>
             if \<not> c_is_blocked c
             then Inr (w\<lparr>broker := broker w @ [(p_id p, c_id c, reply_delay p * 10)]\<rparr>)
             else Inr w)
      else Inr w)"

section \<open>The posts router (\<open>app/routers/posts.py\<close>)\<close>

definition create_post :: "user \<Rightarrow> body \<times> bool \<times> string \<Rightarrow> world \<Rightarrow> (exn + post reply) \<times> world" where
  "create_post current_user post_data w =
     (case post_data of (pst, is_blocked, block_reason) \<Rightarrow>
        create_new_post w pst current_user is_blocked block_reason)"

definition list_posts :: "world \<Rightarrow> post list" where
  "list_posts w = filter (\<lambda>p. p_is_blocked p = False) (posts w)"

definition get_post :: "int \<Rightarrow> world \<Rightarrow> exn + post" where
  "get_post post_id w =
     (case filter (\<lambda>p. p_id p = post_id) (posts w) of
        [] \<Rightarrow> Inl (HTTPException 404 ''Post not found'')
      | p # _ \<Rightarrow> Inr p)"

text \<open>What \<open>GET /posts/{post_id}\<close> answers: the handler's result through \<open>PostOut\<close>.\<close>

definition get_post_response :: "int \<Rightarrow> world \<Rightarrow> exn + PostOut" where
  "get_post_response post_id w =
     (case get_post post_id w of
        Inl e \<Rightarrow> Inl e
      | Inr p \<Rightarrow> Inr (PostOut_from_orm p))"

text \<open>
  The loop \<open>for key, value in post_data.dict(exclude_unset=True).items(): setattr(...)\<close>
  of \<open>update_post\<close>, key by key in the order of the schema; \<open>setattr\<close> on \<open>title\<close> and
  \<open>content\<close> runs the validator. On a \<open>CommentCreate\<close> the key \<open>parent_id\<close> becomes a
  plain attribute of the object and reaches no column.
\<close>

definition setattr_loop :: "post \<Rightarrow> body \<Rightarrow> exn + post" where
  "setattr_loop p post_data =
     (case post_data of
        PostCreate t c a d \<Rightarrow>
          (case validate_non_empty_string ''Title'' t of
             Inl e \<Rightarrow> Inl e
           | Inr t' \<Rightarrow>
               (case validate_non_empty_string ''Content'' c of
                  Inl e \<Rightarrow> Inl e
                | Inr c' \<Rightarrow>
                    Inr (p\<lparr>title := t', p_content := c',
                           auto_reply_enabled :=
                             (case a of None \<Rightarrow> auto_reply_enabled p | Some x \<Rightarrow> x),
                           reply_delay := (case d of None \<Rightarrow> reply_delay p | Some x \<Rightarrow> x)\<rparr>)))
      | CommentCreate c par \<Rightarrow>
          (case validate_non_empty_string ''Content'' c of
             Inl e \<Rightarrow> Inl e
           | Inr c' \<Rightarrow> Inr (p\<lparr>p_content := c'\<rparr>)))"

definition update_post ::
  "int \<Rightarrow> user \<Rightarrow> body \<times> bool \<times> string \<Rightarrow> world \<Rightarrow> (exn + post reply) \<times> world" where
  "update_post post_id current_user post_data_tuple w =
     (case filter (\<lambda>p. p_id p = post_id) (posts w) of
        [] \<Rightarrow> (Inl (HTTPException 404 ''Post not found''), w)
      | p # _ \<Rightarrow>
          if p_author_id p \<noteq> u_id current_user
          then (Inl (HTTPException 403 ''Not authorized to update this post''), w)
          else
            (case post_data_tuple of (post_data, is_blocked, block_reason) \<Rightarrow>
               (case setattr_loop (p\<lparr>p_is_blocked := is_blocked, p_block_reason := block_reason\<rparr>)
                       post_data of
                  Inl e \<Rightarrow> (Inl (except_ValueError e), w)
                | Inr p' \<Rightarrow>
                    (Inr (check_blocked_post_content p'),
                     w\<lparr>posts := map (\<lambda>q. if p_id q = post_id then p' else q) (posts w)\<rparr>))))"

text \<open>
  \<open>delete_post\<close>. \<open>Post.comments\<close> declares no delete cascade, so the unit of work
  de-associates the post's comments (\<open>post_id\<close> becomes NULL) and deletes the post.
\<close>

definition delete_post :: "int \<Rightarrow> user \<Rightarrow> world \<Rightarrow> (exn + string) \<times> world" where
  "delete_post post_id current_user w =
     (case filter (\<lambda>p. p_id p = post_id) (posts w) of
        [] \<Rightarrow> (Inl (HTTPException 404 ''Post not found''), w)
      | p # _ \<Rightarrow>
          if p_author_id p \<noteq> u_id current_user \<and> \<not> is_superuser current_user
          then (Inl (HTTPException 403 ''Not authorized to delete this post''), w)
          else
            (Inr ''Post deleted successfully'',
             w\<lparr>posts := filter (\<lambda>q. p_id q \<noteq> post_id) (posts w),
                comments := map (\<lambda>c. if c_post_id c = Some post_id
                                        then c\<lparr>c_post_id := None\<rparr> else c) (comments w)\<rparr>))"

section \<open>The comments router (\<open>app/routers/comments.py\<close>)\<close>

definition create_comment ::
  "int \<Rightarrow> user \<Rightarrow> body \<times> bool \<times> string \<Rightarrow> world \<Rightarrow> (exn + comment reply) \<times> world" where
  "create_comment post_id current_user comment_data w =
     (case filter (\<lambda>p. p_id p = post_id) (posts w) of
        [] \<Rightarrow> (Inl (HTTPException 404 ''Post not found''), w)
      | p # _ \<Rightarrow>
          (case comment_data of (cmt, is_blocked, block_reason) \<Rightarrow>
             (case check_post_blocked p of
                Inl e \<Rightarrow> (Inl e, w)
              | Inr _ \<Rightarrow>
                  (case body_parent_id cmt of
                     Inl e \<Rightarrow> (Inl e, w)
                   | Inr par \<Rightarrow>
                       (case (case par of
                                None \<Rightarrow> Inr ()
                              | Some k \<Rightarrow> if k = 0 then Inr ()
                                          else check_parent_comment_blocked k w) of
                          Inl e \<Rightarrow> (Inl e, w)
                        | Inr _ \<Rightarrow>
                            (case create_new_comment w cmt post_id current_user
                                    is_blocked block_reason of
                               (Inl e, w1) \<Rightarrow> (Inl e, w1)
                             | (Inr new_comment, w1) \<Rightarrow>
                                 if \<not> is_blocked then
                                   (case schedule_auto_reply_if_enabled p new_comment w1 of
                                      Inl e \<Rightarrow> (Inl e, w1)
                                    | Inr w2 \<Rightarrow> (Inr new_comment, w2))
                                 else (Inr new_comment, w1)))))))"

definition get_all_comments :: "int \<Rightarrow> world \<Rightarrow> comment list" where
  "get_all_comments post_id w = filter (\<lambda>c. c_post_id c = Some post_id) (comments w)"

definition get_comment :: "int \<Rightarrow> world \<Rightarrow> exn + comment" where
  "get_comment comment_id w =
     (case filter (\<lambda>c. c_id c = comment_id) (comments w) of
        [] \<Rightarrow> Inl (HTTPException 404 ''Comment not found'')
      | c # _ \<Rightarrow> Inr c)"

text \<open>What \<open>GET /comments/{comment_id}\<close> answers: the handler's result through \<open>CommentOut\<close>.\<close>

definition get_comment_response :: "int \<Rightarrow> world \<Rightarrow> exn + CommentOut" where
  "get_comment_response comment_id w =
     (case get_comment comment_id w of
        Inl e \<Rightarrow> Inl e
      | Inr c \<Rightarrow> CommentOut_from_orm c)"

text \<open>
  \<open>update_comment\<close>. The assignment to \<open>comment.content\<close> runs the validator outside any
  \<open>try\<close>.
\<close>

definition update_comment ::
  "int \<Rightarrow> user \<Rightarrow> body \<times> bool \<times> string \<Rightarrow> world \<Rightarrow> (exn + comment reply) \<times> world" where
  "update_comment comment_id current_user updated_comment_data w =
     (case updated_comment_data of (updated_comment, is_blocked, block_reason) \<Rightarrow>
        (case filter (\<lambda>c. c_id c = comment_id) (comments w) of
           [] \<Rightarrow> (Inl (HTTPException 404 ''Comment not found''), w)
         | c # _ \<Rightarrow>
             if c_author_id c \<noteq> u_id current_user
             then (Inl (HTTPException 403 ''Not authorized to update this comment''), w)
             else
               (case validate_non_empty_string ''Content'' (body_content updated_comment) of
                  Inl e \<Rightarrow> (Inl e, w)
                | Inr v \<Rightarrow>
                    (let c' = c\<lparr>c_content := v, c_is_blocked := is_blocked,
                                 c_block_reason := block_reason\<rparr>
                     in (Inr (check_blocked_comment_content c'),
                         w\<lparr>comments :=
                              map (\<lambda>q. if c_id q = comment_id then c' else q) (comments w)\<rparr>)))))"

text \<open>
  \<open>Comment.replies\<close> is declared with \<open>cascade="all, delete-orphan"\<close>: deleting a comment
  through the session walks the replies relationship with a work list and a set of
  visited objects, and deletes everything it visits.
\<close>

definition replies :: "comment list \<Rightarrow> int \<Rightarrow> int list" where
  "replies cs i = map c_id (filter (\<lambda>c. parent_id c = Some i) cs)"

function cascade_iterator :: "comment list \<Rightarrow> int list \<Rightarrow> int list \<Rightarrow> int list" where
  "cascade_iterator cs [] visited = visited"
| "cascade_iterator cs (i # work) visited =
     (if i \<in> set visited then cascade_iterator cs work visited
      else cascade_iterator cs (replies cs i @ work) (i # visited))"
  by pat_completeness auto
termination
proof (relation "measures [\<lambda>(cs, work, visited). card ((set (map c_id cs) \<union> set work) - set visited),
                           \<lambda>(cs, work, visited). length work]", goal_cases)
  case 1
  show ?case by simp
next
  case (2 cs i work visited)
  have "card ((set (map c_id cs) \<union> set work) - set visited)
          \<le> card ((set (map c_id cs) \<union> set (i # work)) - set visited)"
    by (rule card_mono) auto
  then show ?case by auto
next
  case (3 cs i work visited)
  have sub: "set (replies cs i) \<subseteq> set (map c_id cs)"
    by (auto simp: replies_def)
  have "(set (map c_id cs) \<union> set (replies cs i @ work)) - set (i # visited)
          \<subset> (set (map c_id cs) \<union> set (i # work)) - set visited"
    using 3 sub by auto
  then have "card ((set (map c_id cs) \<union> set (replies cs i @ work)) - set (i # visited))
          < card ((set (map c_id cs) \<union> set (i # work)) - set visited)"
    by (intro psubset_card_mono) auto
  then show ?case by simp
qed

declare cascade_iterator.simps [simp del]

definition delete_comment :: "int \<Rightarrow> user \<Rightarrow> world \<Rightarrow> (exn + string) \<times> world" where
  "delete_comment comment_id current_user w =
     (case filter (\<lambda>c. c_id c = comment_id) (comments w) of
        [] \<Rightarrow> (Inl (HTTPException 404 ''Comment not found''), w)
      | c # _ \<Rightarrow>
          if c_author_id c \<noteq> u_id current_user \<and> \<not> is_superuser current_user
          then (Inl (HTTPException 403 ''Not authorized to delete this comment''), w)
          else
            (Inr ''Comment deleted successfully'',
             w\<lparr>comments :=
                  filter (\<lambda>q. c_id q \<notin> set (cascade_iterator (comments w) [c_id c] []))
                    (comments w)\<rparr>))"

section \<open>The auto-reply worker (\<open>app/tasks.py\<close>)\<close>

definition generate_relevant_reply ::
  "genai \<Rightarrow> post \<Rightarrow> comment \<Rightarrow> world \<Rightarrow> (exn + string) \<times> world" where
  "generate_relevant_reply model p c w =
     (let prompt = ''Generate a relevant response to this comment: '' @ [CHR 0x27]
                     @ c_content c @ [CHR 0x27] @ '' based on the post: '' @ [CHR 0x27]
                     @ p_content p @ [CHR 0x27];
          w1 = w\<lparr>ai_calls := ai_calls w + 1\<rparr>
      in case model (ai_calls w) prompt of
           Inl e \<Rightarrow> (Inl (ServiceError e), w1)
         | Inr reply \<Rightarrow>
             (case resp_text reply of
                None \<Rightarrow> (Inl (ValueError ''The response holds no text''), w1)
              | Some t \<Rightarrow> (Inr t, w1)))"

definition scalar_one :: "'a list \<Rightarrow> exn + 'a" where
  "scalar_one rows =
     (case rows of
        [] \<Rightarrow> Inl NoResultFound
      | [x] \<Rightarrow> Inr x
      | _ \<Rightarrow> Inl MultipleResultsFound)"

text \<open>
  The body of the \<open>try\<close> of \<open>_send_auto_reply_async\<close>: either an exception, raised before
  anything is committed, or the world after the commit. The constructor of the reply runs
  the validator of \<open>content\<close>; the new row takes the column defaults
  \<open>is_blocked = False\<close> and \<open>block_reason = ""\<close>.
\<close>

definition send_auto_reply_try :: "genai \<Rightarrow> int \<Rightarrow> int \<Rightarrow> world \<Rightarrow> (exn + unit) \<times> world" where
  "send_auto_reply_try model post_id comment_id w =
     (case scalar_one (filter (\<lambda>p. p_id p = post_id) (posts w)) of
        Inl e \<Rightarrow> (Inl e, w)
      | Inr p \<Rightarrow>
          (case scalar_one (filter (\<lambda>c. c_id c = comment_id) (comments w)) of
             Inl e \<Rightarrow> (Inl e, w)
           | Inr c \<Rightarrow>
               (case generate_relevant_reply model p c w of
                  (Inl e, w1) \<Rightarrow> (Inl e, w1)
                | (Inr reply_content, w1) \<Rightarrow>
                    (case validate_non_empty_string ''Content'' reply_content of
                       Inl e \<Rightarrow> (Inl e, w1)
                     | Inr v \<Rightarrow>
                         (let reply_comment =
                                \<lparr>c_id = comments_id_seq w1, c_post_id = Some (p_id p),
                                 parent_id = Some (c_id c), c_content = v,
                                 c_author_id = p_author_id p, c_is_blocked = False,
                                 c_block_reason = []\<rparr>
                          in (Inr (),
                              w1\<lparr>comments := comments w1 @ [reply_comment],
                                 comments_id_seq := comments_id_seq w1 + 1,
                                 events := events w1 @
                                   [Print (''Auto reply has been created: '' @ v)]\<rparr>))))))"

text \<open>
  \<open>_send_auto_reply_async\<close> with its \<open>except NoResultFound\<close>, which rolls back and
  prints; the first component is the exception that leaves the task, if any.
\<close>

definition send_auto_reply_async :: "genai \<Rightarrow> int \<Rightarrow> int \<Rightarrow> world \<Rightarrow> exn option \<times> world" where
  "send_auto_reply_async model post_id comment_id w =
     (case send_auto_reply_try model post_id comment_id w of
        (Inl NoResultFound, w1) \<Rightarrow>
          (None, w1\<lparr>events := events w1 @ [Print ''Post or Comment not found'']\<rparr>)
      | (Inl e, w1) \<Rightarrow> (Some e, w1)
      | (Inr _, w1) \<Rightarrow> (None, w1))"

definition send_auto_reply :: "genai \<Rightarrow> int \<Rightarrow> int \<Rightarrow> world \<Rightarrow> exn option \<times> world" where
  "send_auto_reply model post_id comment_id w = send_auto_reply_async model post_id comment_id w"

section \<open>Requests and steps of the system\<close>

text \<open>
  A handler that declares \<open>Depends(moderate_content)\<close> runs after the dependency, on the
  tuple it returned.
\<close>

definition with_moderation ::
  "genai \<Rightarrow> body \<Rightarrow> (body \<times> bool \<times> string \<Rightarrow> world \<Rightarrow> 'a \<times> world) \<Rightarrow> world \<Rightarrow> 'a \<times> world" where
  "with_moderation model data handler w =
     (case moderate_content model data w of (moderated, w1) \<Rightarrow> handler moderated w1)"

datatype request =
    CreatePost user body
  | ListPosts
  | GetPost int
  | UpdatePost int user body
  | DeletePost int user
  | CreateComment int user body
  | GetAllComments int
  | GetComment int
  | UpdateComment int user body
  | DeleteComment int user
  | SendAutoReply int int

fun step :: "genai \<Rightarrow> request \<Rightarrow> world \<Rightarrow> world" where
  "step model (CreatePost u b) w = snd (with_moderation model b (create_post u) w)"
| "step model ListPosts w = w"
| "step model (GetPost i) w = w"
| "step model (UpdatePost i u b) w = snd (with_moderation model b (update_post i u) w)"
| "step model (DeletePost i u) w = snd (delete_post i u w)"
| "step model (CreateComment i u b) w = snd (with_moderation model b (create_comment i u) w)"
| "step model (GetAllComments i) w = w"
| "step model (GetComment i) w = w"
| "step model (UpdateComment i u b) w = snd (with_moderation model b (update_comment i u) w)"
| "step model (DeleteComment i u) w = snd (delete_comment i u w)"
| "step model (SendAutoReply i j) w = snd (send_auto_reply model i j w)"

fun run :: "genai \<Rightarrow> request list \<Rightarrow> world \<Rightarrow> world" where
  "run model [] w = w"
| "run model (r # rs) w = run model rs (step model r w)"

definition empty_world :: world where
  "empty_world = \<lparr>posts = [], comments = [], posts_id_seq = 1, comments_id_seq = 1,
                   broker = [], ai_calls = 0, events = []\<rparr>"

section \<open>Properties stated over the model\<close>

text \<open>The comments below a comment: the comment itself and, transitively, its replies.\<close>

inductive descendant :: "comment list \<Rightarrow> int \<Rightarrow> int \<Rightarrow> bool" for cs root where
  self: "descendant cs root root"
| reply: "descendant cs root i \<Longrightarrow> c \<in> set cs \<Longrightarrow> parent_id c = Some i
            \<Longrightarrow> descendant cs root (c_id c)"

definition blocked_has_reason :: "world \<Rightarrow> bool" where
  "blocked_has_reason w =
     ((\<forall>p \<in> set (posts w). p_is_blocked p \<longrightarrow> p_block_reason p \<noteq> []) \<and>
      (\<forall>c \<in> set (comments w). c_is_blocked c \<longrightarrow> c_block_reason c \<noteq> []))"

text \<open>
  What the retry loop prints and sleeps over \<open>k\<close> failed attempts, the first of them being
  call number \<open>n\<close> of the service.
\<close>

definition failed_attempts :: "genai \<Rightarrow> string \<Rightarrow> nat \<Rightarrow> nat \<Rightarrow> event list" where
  "failed_attempts model prompt n k =
     concat (map (\<lambda>i. [Print (''Error while AI text proceeds:  '' @ projl (model (n + i) prompt)),
                        Sleep 5]) [0..<k])"

section \<open>Concrete inputs\<close>

text \<open>A response of two candidates; only the second carries a rating at tier 2 or above.\<close>

definition second_candidate_flagged :: response where
  "second_candidate_flagged =
     \<lparr>candidates = Some [\<lparr>safety_ratings = [\<lparr>category = 7, probability = 1\<rparr>]\<rparr>,
                         \<lparr>safety_ratings = [\<lparr>category = 7, probability = 3\<rparr>]\<rparr>],
      resp_text = None\<rparr>"

definition alice :: user where
  "alice = \<lparr>u_id = 1, is_superuser = False\<rparr>"

definition bob :: user where
  "bob = \<lparr>u_id = 2, is_superuser = False\<rparr>"

definition demo_post :: post where
  "demo_post = \<lparr>p_id = 1, title = ''News'', p_content = ''Some news'', p_author_id = 1,
                 p_is_blocked = False, p_block_reason = [], auto_reply_enabled = True,
                 reply_delay = 3\<rparr>"

definition demo_comment :: comment where
  "demo_comment = \<lparr>c_id = 1, c_post_id = Some 1, parent_id = None, c_content = ''Nice'',
                    c_author_id = 2, c_is_blocked = False, c_block_reason = []\<rparr>"

definition demo_world :: world where
  "demo_world = \<lparr>posts = [demo_post], comments = [demo_comment], posts_id_seq = 2,
                  comments_id_seq = 2, broker = [], ai_calls = 0, events = []\<rparr>"

text \<open>Two answers of the reply generation: a whitespace-only text and a proper one.\<close>

definition blank_reply :: response where
  "blank_reply = \<lparr>candidates = Some [], resp_text = Some '' ''\<rparr>"

definition thanks_reply :: response where
  "thanks_reply = \<lparr>candidates = Some [], resp_text = Some ''Thank you''\<rparr>"

text \<open>
  A thread on post 1: comment 1 with replies 2 and 4, comment 3 replying to 2, and the
  unrelated top-level comment 5. All are written by user 2.
\<close>

definition thread_comment :: "int \<Rightarrow> int option \<Rightarrow> comment" where
  "thread_comment i par = \<lparr>c_id = i, c_post_id = Some 1, parent_id = par, c_content = ''text'',
                            c_author_id = 2, c_is_blocked = False, c_block_reason = []\<rparr>"

definition thread_world :: world where
  "thread_world = \<lparr>posts = [demo_post],
                    comments = [thread_comment 1 None, thread_comment 2 (Some 1),
                                thread_comment 3 (Some 2), thread_comment 4 (Some 1),
                                thread_comment 5 None],
                    posts_id_seq = 2, comments_id_seq = 6, broker = [], ai_calls = 0,
                    events = []\<rparr>"

text \<open>A world holding one blocked post and one blocked comment.\<close>

definition blocked_post :: post where
  "blocked_post = \<lparr>p_id = 1, title = ''Rant'', p_content = ''You are all fools'',
                    p_author_id = 1, p_is_blocked = True,
                    p_block_reason = ''HARM_CATEGORY_HARASSMENT'', auto_reply_enabled = False,
                    reply_delay = 0\<rparr>"

definition blocked_comment :: comment where
  "blocked_comment = \<lparr>c_id = 1, c_post_id = Some 1, parent_id = None,
                       c_content = ''You fool'', c_author_id = 2, c_is_blocked = True,
                       c_block_reason = ''HARM_CATEGORY_HARASSMENT''\<rparr>"

definition blocked_world :: world where
  "blocked_world = \<lparr>posts = [blocked_post], comments = [blocked_comment], posts_id_seq = 2,
                     comments_id_seq = 2, broker = [], ai_calls = 0, events = []\<rparr>"

text \<open>Two answers of the moderation call: one flagged for harassment, one clean.\<close>

definition flagged_response :: response where
  "flagged_response =
     \<lparr>candidates = Some [\<lparr>safety_ratings = [\<lparr>category = 7, probability = 3\<rparr>]\<rparr>],
      resp_text = None\<rparr>"

definition clean_response :: response where
  "clean_response =
     \<lparr>candidates = Some [\<lparr>safety_ratings = [\<lparr>category = 7, probability = 1\<rparr>]\<rparr>],
      resp_text = None\<rparr>"

section \<open>The moderation gate: verified properties\<close>

lemma generate_loop_answers:
  "model (ai_calls w) prompt = Inr r \<Longrightarrow>
     generate_loop model prompt 0 None w = (Some r, w\<lparr>ai_calls := ai_calls w + 1\<rparr>)"
  by (simp add: generate_loop.simps[of _ _ 0] generate_loop.simps[of _ _ "Suc 0"])

lemma failed_attempts_Suc:
  "failed_attempts model prompt n (Suc k) =
     [Print (''Error while AI text proceeds:  '' @ projl (model n prompt)), Sleep 5]
       @ failed_attempts model prompt (n + 1) k"
  unfolding failed_attempts_def
  by (simp add: upt_rec[of 0] map_Suc_upt[symmetric] comp_def del: upt_Suc)

lemma generate_loop_all_fail:
  "\<forall>i < k. isl (model (ai_calls w + i) prompt) \<Longrightarrow> count + k = 4 \<Longrightarrow>
   generate_loop model prompt count None w =
     (None, w\<lparr>ai_calls := ai_calls w + k,
              events := events w @ failed_attempts model prompt (ai_calls w) k\<rparr>)"
proof (induction k arbitrary: count w)
  case 0
  then show ?case
    by (subst generate_loop.simps) (simp add: failed_attempts_def)
next
  case (Suc k)
  from Suc.prems(1) have "isl (model (ai_calls w) prompt)"
    by (metis add.right_neutral zero_less_Suc)
  then obtain e where e: "model (ai_calls w) prompt = Inl e"
    by (cases "model (ai_calls w) prompt") auto
  let ?w1 = "w\<lparr>ai_calls := ai_calls w + 1,
                events := events w @ [Print (''Error while AI text proceeds:  '' @ e), Sleep 5]\<rparr>"
  have later: "\<forall>i < k. isl (model (ai_calls ?w1 + i) prompt)"
  proof (intro allI impI)
    fix i assume "i < k"
    then have "Suc i < Suc k" by simp
    with Suc.prems(1) have "isl (model (ai_calls w + Suc i) prompt)" by blast
    then show "isl (model (ai_calls ?w1 + i) prompt)" by simp
  qed
  from Suc.prems(2) have cnt: "(count + 1) + k = 4" and le: "count \<le> 3" by simp_all
  note ih = Suc.IH[OF later cnt]
  show ?case
    using ih by (subst generate_loop.simps) (simp add: le e failed_attempts_Suc)
qed

text \<open>
  Claim C1. When the service answers, the gate is said to inspect the ratings of each
  candidate and to block on any rating at tier 2 or above. On a response whose first
  candidate is clean and whose second candidate carries a harassment rating at tier 3, the
  gate answers after one call with \<open>blocked = False\<close> and an empty reason, where an
  inspection of every candidate yields \<open>blocked = True\<close> with the harassment category.
\<close>

theorem later_candidates_not_inspected:
  "moderate_content_with_ai (\<lambda>n prompt. Inr second_candidate_flagged) text w
     = ((False, []), w\<lparr>ai_calls := ai_calls w + 1\<rparr>)
   \<and> inspect_all_candidates (the (candidates second_candidate_flagged))
     = (True, ''HARM_CATEGORY_HARASSMENT'')"
  by (simp add: moderate_content_with_ai_def generate_loop_answers second_candidate_flagged_def
        safety_categories_def)

text \<open>
  Claim C2. When every attempt to reach the service fails, the gate makes the initial
  attempt and three retries (four calls), prints and sleeps 5 seconds after each failure,
  and returns \<open>blocked = True\<close> with the reason \<open>Error while AI text proceeds\<close>; the
  result is a verdict, not an exception.
\<close>

theorem gate_fails_closed:
  assumes "\<forall>i < 4. isl (model (ai_calls w + i) (text_proc text))"
  shows "moderate_content_with_ai model text w =
           ((True, ''Error while AI text proceeds''),
            w\<lparr>ai_calls := ai_calls w + 4,
              events := events w @ failed_attempts model (text_proc text) (ai_calls w) 4 @
                [Print ''Content has been blocked because of AI-moderation is not available'']\<rparr>)"
  using generate_loop_all_fail[of 4 model w "text_proc text" 0] assms
  by (simp add: moderate_content_with_ai_def)

theorem gate_fails_closed_witness:
  "fst (moderate_content_with_ai (\<lambda>n prompt. Inl ''unavailable'') ''hello'' empty_world)
       = (True, ''Error while AI text proceeds'')
   \<and> ai_calls (snd (moderate_content_with_ai (\<lambda>n prompt. Inl ''unavailable'') ''hello''
                      empty_world)) = 4
   \<and> filter (\<lambda>e. e = Sleep 5)
        (events (snd (moderate_content_with_ai (\<lambda>n prompt. Inl ''unavailable'') ''hello''
                        empty_world)))
       = [Sleep 5, Sleep 5, Sleep 5, Sleep 5]"
proof -
  have h: "\<forall>i < 4. isl ((\<lambda>n prompt. Inl ''unavailable'' :: string + response)
                         (ai_calls empty_world + i) (text_proc ''hello''))"
    by simp
  show ?thesis
    using gate_fails_closed[OF h]
    by (simp add: empty_world_def failed_attempts_def upt_rec[of 0] upt_rec[of "Suc 0"]
          eval_nat_numeral)
qed

section \<open>Creating comments: verified properties\<close>

lemma create_new_comment_cases:
  assumes "create_new_comment w cmt post_id u is_blocked block_reason = (res, w')"
  shows "(\<exists>e. res = Inl e \<and> w' = w) \<or>
         (\<exists>c. res = Inr (check_blocked_comment_content c) \<and>
              c_id c = comments_id_seq w \<and> c_is_blocked c = is_blocked \<and>
              c_block_reason c = block_reason \<and>
              c_content c = body_content cmt \<and> c_post_id c = Some post_id \<and>
              c_author_id c = u_id u \<and> body_parent_id cmt = Inr (parent_id c) \<and>
              w' = w\<lparr>comments := comments w @ [c],
                      comments_id_seq := comments_id_seq w + 1\<rparr>)"
  using assms
  by (auto simp: create_new_comment_def validate_non_empty_string_def Let_def
           split: sum.splits if_splits)

lemma create_comment_cases:
  assumes "create_comment post_id u (cmt, is_blocked, block_reason) w = (res, w')"
  shows "(\<exists>e. res = Inl e \<and> w' = w) \<or>
         (\<exists>p c. get_post post_id w = Inr p \<and> p_id p = post_id \<and> \<not> p_is_blocked p \<and>
              res = Inr (check_blocked_comment_content c) \<and>
              c_id c = comments_id_seq w \<and> c_is_blocked c = is_blocked \<and>
              c_block_reason c = block_reason \<and>
              c_content c = body_content cmt \<and> c_post_id c = Some post_id \<and>
              c_author_id c = u_id u \<and> body_parent_id cmt = Inr (parent_id c) \<and>
              w' = w\<lparr>comments := comments w @ [c],
                      comments_id_seq := comments_id_seq w + 1,
                      broker := (if \<not> is_blocked \<and> auto_reply_enabled p
                                 then broker w @ [(post_id, c_id c, reply_delay p * 10)]
                                 else broker w)\<rparr>)"
proof (cases "filter (\<lambda>p. p_id p = post_id) (posts w)")
  case Nil
  with assms show ?thesis by (auto simp: create_comment_def)
next
  case (Cons p ps)
  then have "p \<in> set (filter (\<lambda>p. p_id p = post_id) (posts w))" by simp
  then have pid: "p_id p = post_id" by simp
  have gp: "get_post post_id w = Inr p" using Cons by (simp add: get_post_def)
  obtain r1 w1 where cn: "create_new_comment w cmt post_id u is_blocked block_reason = (r1, w1)"
    by (cases "create_new_comment w cmt post_id u is_blocked block_reason")
  from create_new_comment_cases[OF cn] show ?thesis
  proof (elim disjE exE conjE)
    fix e assume "r1 = Inl e" "w1 = w"
    with assms Cons cn show ?thesis
      by (auto simp: create_comment_def split: sum.splits option.splits if_splits)
  next
    fix c
    assume c: "r1 = Inr (check_blocked_comment_content c)" "c_id c = comments_id_seq w"
      "c_is_blocked c = is_blocked" "c_block_reason c = block_reason"
      "c_content c = body_content cmt" "c_post_id c = Some post_id"
      "c_author_id c = u_id u" "body_parent_id cmt = Inr (parent_id c)"
      "w1 = w\<lparr>comments := comments w @ [c], comments_id_seq := comments_id_seq w + 1\<rparr>"
    show ?thesis
    proof (cases res)
      case (Inl e)
      with assms Cons cn c show ?thesis
        by (auto simp: create_comment_def schedule_auto_reply_if_enabled_def
              check_blocked_comment_content_def
            split: sum.splits option.splits if_splits)
    next
      case (Inr r)
      have nb: "\<not> p_is_blocked p"
        using assms Cons Inr
        by (auto simp: create_comment_def check_post_blocked_def split: if_splits)
      have "res = Inr (check_blocked_comment_content c) \<and>
            w' = w\<lparr>comments := comments w @ [c],
                      comments_id_seq := comments_id_seq w + 1,
                      broker := (if \<not> is_blocked \<and> auto_reply_enabled p
                                 then broker w @ [(post_id, c_id c, reply_delay p * 10)]
                                 else broker w)\<rparr>"
        using assms Cons cn c Inr pid
        by (auto simp: create_comment_def schedule_auto_reply_if_enabled_def
              check_blocked_comment_content_def
            split: sum.splits option.splits if_splits)
      with gp pid nb c show ?thesis by blast
    qed
  qed
qed

text \<open>
  Claim C3. A comment creation request enqueues an auto-reply task exactly when it created
  a comment that is not blocked on a post whose \<open>auto_reply_enabled\<close> is true; the task
  carries the post id and the new comment's id, with countdown \<open>reply_delay * 10\<close>. A
  request that fails creates no comment and enqueues nothing.
\<close>

theorem auto_reply_scheduled_iff:
  assumes "create_comment post_id current_user (cmt, is_blocked, block_reason) w = (res, w')"
  shows "case res of
           Inl e \<Rightarrow> broker w' = broker w \<and> comments w' = comments w
         | Inr r \<Rightarrow>
             (\<exists>p c. get_post post_id w = Inr p \<and> p_id p = post_id \<and>
                    comments w' = comments w @ [c] \<and> c_id c = comments_id_seq w \<and>
                    c_is_blocked c = is_blocked \<and>
                    broker w' =
                      (if \<not> c_is_blocked c \<and> auto_reply_enabled p
                       then broker w @ [(post_id, c_id c, reply_delay p * 10)]
                       else broker w))"
  using create_comment_cases[OF assms]
proof (elim disjE exE conjE)
  fix e assume "res = Inl e" "w' = w"
  then show ?thesis by simp
next
  fix p c
  assume h: "get_post post_id w = Inr p" "p_id p = post_id"
    "res = Inr (check_blocked_comment_content c)" "c_id c = comments_id_seq w"
    "c_is_blocked c = is_blocked"
    "w' = w\<lparr>comments := comments w @ [c],
                      comments_id_seq := comments_id_seq w + 1,
                      broker := (if \<not> is_blocked \<and> auto_reply_enabled p
                                 then broker w @ [(post_id, c_id c, reply_delay p * 10)]
                                 else broker w)\<rparr>"
  have "get_post post_id w = Inr p \<and> p_id p = post_id \<and>
                    comments w' = comments w @ [c] \<and> c_id c = comments_id_seq w \<and>
                    c_is_blocked c = is_blocked \<and>
                    broker w' =
                      (if \<not> c_is_blocked c \<and> auto_reply_enabled p
                       then broker w @ [(post_id, c_id c, reply_delay p * 10)]
                       else broker w)"
    using h by simp
  then show ?thesis using h(3) by auto
qed

theorem auto_reply_scheduled_iff_witness:
  "broker (snd (create_comment 1 bob (CommentCreate ''Thanks'' (Some 1), False, []) demo_world))
     = [(1, 2, 30)]
   \<and> broker (snd (create_comment 1 bob (CommentCreate ''Thanks'' (Some 1), True, ''HARM_CATEGORY_HARASSMENT'') demo_world))
     = []"
proof -
  obtain res w' where h: "create_comment 1 bob (CommentCreate ''Thanks'' (Some 1), False, []) demo_world = (res, w')"
    by (cases "create_comment 1 bob (CommentCreate ''Thanks'' (Some 1), False, []) demo_world")
  have r: "res = Inr (Obj \<lparr>c_id = 2, c_post_id = Some 1, parent_id = Some 1, c_content = ''Thanks'',
                    c_author_id = 2, c_is_blocked = False, c_block_reason = []\<rparr>)"
    using h
    by (simp add: create_comment_def create_new_comment_def demo_world_def demo_post_def demo_comment_def
          bob_def check_post_blocked_def check_parent_comment_blocked_def validate_non_empty_string_def
          strip_def isspace_def check_blocked_comment_content_def schedule_auto_reply_if_enabled_def
          blocked_detail_def Let_def)
  have gp: "get_post 1 demo_world = Inr demo_post"
    by (simp add: get_post_def demo_world_def demo_post_def)
  have a: "broker w' = [(1, 2, 30)]"
    using auto_reply_scheduled_iff[OF h] r gp
    by (auto simp: demo_world_def demo_post_def)
  obtain res2 w2 where h2: "create_comment 1 bob (CommentCreate ''Thanks'' (Some 1), True, ''HARM_CATEGORY_HARASSMENT'') demo_world = (res2, w2)"
    by (cases "create_comment 1 bob (CommentCreate ''Thanks'' (Some 1), True, ''HARM_CATEGORY_HARASSMENT'') demo_world")
  have r2: "res2 = Inr (JSONResponse (blocked_detail ''HARM_CATEGORY_HARASSMENT'') 400)"
    using h2
    by (simp add: create_comment_def create_new_comment_def demo_world_def demo_post_def demo_comment_def
          bob_def check_post_blocked_def check_parent_comment_blocked_def validate_non_empty_string_def
          strip_def isspace_def check_blocked_comment_content_def schedule_auto_reply_if_enabled_def
          blocked_detail_def Let_def)
  have b: "broker w2 = []"
    using auto_reply_scheduled_iff[OF h2] r2 gp
    by (auto simp: demo_world_def demo_post_def)
  show ?thesis using a b h h2 by simp
qed

section \<open>The auto-reply worker: verified properties\<close>

lemma generate_relevant_reply_calls:
  "generate_relevant_reply model p c w = (r, w1) \<Longrightarrow> w1 = w\<lparr>ai_calls := ai_calls w + 1\<rparr>"
  by (auto simp: generate_relevant_reply_def Let_def split: sum.splits option.splits)

text \<open>
  Claim C4, as stated, fails: with the post and the comment present, a generated reply that
  is empty after trimming makes the validator of \<open>Comment.content\<close> raise; the
  \<open>ValueError\<close> leaves the worker and no comment is inserted.
\<close>

theorem blank_reply_is_not_inserted:
  "get_post 1 demo_world = Inr demo_post \<and> get_comment 1 demo_world = Inr demo_comment \<and>
   send_auto_reply_async (\<lambda>n prompt. Inr blank_reply) 1 1 demo_world
     = (Some (ValueError ''Content cannot be an empty string.''), demo_world\<lparr>ai_calls := 1\<rparr>)"
  by (simp add: send_auto_reply_async_def send_auto_reply_try_def scalar_one_def
        generate_relevant_reply_def validate_non_empty_string_def strip_def isspace_def
        get_post_def get_comment_def demo_world_def demo_post_def demo_comment_def
        blank_reply_def Let_def)

text \<open>
  Claim C4, amended. If the post or the comment does not exist, the worker rolls back,
  prints, inserts nothing and raises nothing. If both exist and the reply generation
  returns a text that is not empty after trimming, the worker makes that one call to the
  service and inserts exactly one comment: authored by the post's author, on the post,
  with the triggering comment as parent, the reply as content, and unblocked without any
  moderation. If both exist and the generated reply is empty or whitespace-only, the
  \<open>ValueError\<close> of the validator leaves the worker and nothing is inserted.
\<close>

theorem auto_reply_worker:
  "(filter (\<lambda>p. p_id p = post_id) (posts w) = [] \<or>
    (\<exists>p. filter (\<lambda>p. p_id p = post_id) (posts w) = [p]) \<and>
      filter (\<lambda>c. c_id c = comment_id) (comments w) = []
    \<longrightarrow> send_auto_reply_async model post_id comment_id w
          = (None, w\<lparr>events := events w @ [Print ''Post or Comment not found'']\<rparr>))
   \<and>
   (filter (\<lambda>p. p_id p = post_id) (posts w) = [p] \<and>
    filter (\<lambda>c. c_id c = comment_id) (comments w) = [c] \<and>
    generate_relevant_reply model p c w = (Inr reply_content, w1) \<and>
    reply_content \<noteq> [] \<and> strip reply_content \<noteq> []
    \<longrightarrow> send_auto_reply_async model post_id comment_id w
          = (None,
             w\<lparr>ai_calls := ai_calls w + 1,
               comments := comments w @
                 [\<lparr>c_id = comments_id_seq w, c_post_id = Some (p_id p),
                   parent_id = Some (c_id c), c_content = reply_content,
                   c_author_id = p_author_id p, c_is_blocked = False, c_block_reason = []\<rparr>],
               comments_id_seq := comments_id_seq w + 1,
               events := events w @ [Print (''Auto reply has been created: '' @ reply_content)]\<rparr>))
   \<and>
   (filter (\<lambda>p. p_id p = post_id) (posts w) = [p] \<and>
    filter (\<lambda>c. c_id c = comment_id) (comments w) = [c] \<and>
    generate_relevant_reply model p c w = (Inr reply_content, w1) \<and>
    (reply_content = [] \<or> strip reply_content = [])
    \<longrightarrow> send_auto_reply_async model post_id comment_id w
          = (Some (ValueError ''Content cannot be an empty string.''),
             w\<lparr>ai_calls := ai_calls w + 1\<rparr>))"
proof (intro conjI impI)
  assume "filter (\<lambda>p. p_id p = post_id) (posts w) = [] \<or>
    (\<exists>p. filter (\<lambda>p. p_id p = post_id) (posts w) = [p]) \<and>
      filter (\<lambda>c. c_id c = comment_id) (comments w) = []"
  then show "send_auto_reply_async model post_id comment_id w
          = (None, w\<lparr>events := events w @ [Print ''Post or Comment not found'']\<rparr>)"
    by (auto simp: send_auto_reply_async_def send_auto_reply_try_def scalar_one_def)
next
  assume h: "filter (\<lambda>p. p_id p = post_id) (posts w) = [p] \<and>
    filter (\<lambda>c. c_id c = comment_id) (comments w) = [c] \<and>
    generate_relevant_reply model p c w = (Inr reply_content, w1) \<and>
    reply_content \<noteq> [] \<and> strip reply_content \<noteq> []"
  then have w1: "w1 = w\<lparr>ai_calls := ai_calls w + 1\<rparr>"
    using generate_relevant_reply_calls by blast
  show "send_auto_reply_async model post_id comment_id w
          = (None,
             w\<lparr>ai_calls := ai_calls w + 1,
               comments := comments w @
                 [\<lparr>c_id = comments_id_seq w, c_post_id = Some (p_id p),
                   parent_id = Some (c_id c), c_content = reply_content,
                   c_author_id = p_author_id p, c_is_blocked = False, c_block_reason = []\<rparr>],
               comments_id_seq := comments_id_seq w + 1,
               events := events w @ [Print (''Auto reply has been created: '' @ reply_content)]\<rparr>)"
    using h w1
    by (simp add: send_auto_reply_async_def send_auto_reply_try_def scalar_one_def
          validate_non_empty_string_def Let_def)
next
  assume h: "filter (\<lambda>p. p_id p = post_id) (posts w) = [p] \<and>
    filter (\<lambda>c. c_id c = comment_id) (comments w) = [c] \<and>
    generate_relevant_reply model p c w = (Inr reply_content, w1) \<and>
    (reply_content = [] \<or> strip reply_content = [])"
  then have w1: "w1 = w\<lparr>ai_calls := ai_calls w + 1\<rparr>"
    using generate_relevant_reply_calls by blast
  from h have v: "validate_non_empty_string ''Content'' reply_content
                    = Inl (ValueError ''Content cannot be an empty string.'')"
    by (auto simp: validate_non_empty_string_def)
  show "send_auto_reply_async model post_id comment_id w
          = (Some (ValueError ''Content cannot be an empty string.''),
             w\<lparr>ai_calls := ai_calls w + 1\<rparr>)"
    using h w1 v
    by (simp add: send_auto_reply_async_def send_auto_reply_try_def scalar_one_def)
qed

theorem auto_reply_worker_witness:
  "send_auto_reply_async (\<lambda>n prompt. Inr thanks_reply) 7 1 demo_world
     = (None, demo_world\<lparr>events := [Print ''Post or Comment not found'']\<rparr>)
   \<and> send_auto_reply_async (\<lambda>n prompt. Inr thanks_reply) 1 1 demo_world
     = (None,
        demo_world\<lparr>ai_calls := 1,
          comments := [demo_comment,
            \<lparr>c_id = 2, c_post_id = Some 1, parent_id = Some 1, c_content = ''Thank you'',
              c_author_id = 1, c_is_blocked = False, c_block_reason = []\<rparr>],
          comments_id_seq := 3,
          events := [Print ''Auto reply has been created: Thank you'']\<rparr>)
   \<and> snd (send_auto_reply_async (\<lambda>n prompt. Inr blank_reply) 1 1 demo_world)
     = demo_world\<lparr>ai_calls := 1\<rparr>"
proof -
  have a: "filter (\<lambda>p. p_id p = 7) (posts demo_world) = []"
    by (simp add: demo_world_def demo_post_def)
  have b: "filter (\<lambda>p. p_id p = 1) (posts demo_world) = [demo_post]"
    by (simp add: demo_world_def demo_post_def)
  have c: "filter (\<lambda>c. c_id c = 1) (comments demo_world) = [demo_comment]"
    by (simp add: demo_world_def demo_comment_def)
  have g: "generate_relevant_reply (\<lambda>n prompt. Inr thanks_reply) demo_post demo_comment demo_world
             = (Inr ''Thank you'', demo_world\<lparr>ai_calls := 1\<rparr>)"
    by (simp add: generate_relevant_reply_def thanks_reply_def demo_world_def Let_def)
  have s: "strip ''Thank you'' \<noteq> []"
    by (simp add: strip_def isspace_def)
  have gb: "generate_relevant_reply (\<lambda>n prompt. Inr blank_reply) demo_post demo_comment demo_world
             = (Inr '' '', demo_world\<lparr>ai_calls := 1\<rparr>)"
    by (simp add: generate_relevant_reply_def blank_reply_def demo_world_def Let_def)
  have sb: "strip '' '' = []"
    by (simp add: strip_def isspace_def)
  from auto_reply_worker[where post_id = 7 and w = demo_world
      and model = "\<lambda>n prompt. Inr thanks_reply" and comment_id = 1] a
  have 1: "send_auto_reply_async (\<lambda>n prompt. Inr thanks_reply) 7 1 demo_world
     = (None, demo_world\<lparr>events := events demo_world @ [Print ''Post or Comment not found'']\<rparr>)"
    by blast
  from auto_reply_worker[where post_id = 1 and w = demo_world
      and model = "\<lambda>n prompt. Inr thanks_reply" and comment_id = 1 and p = demo_post
      and c = demo_comment and reply_content = "''Thank you''"
      and ?w1.0 = "demo_world\<lparr>ai_calls := 1\<rparr>"] b c g s
  have 2: "send_auto_reply_async (\<lambda>n prompt. Inr thanks_reply) 1 1 demo_world
          = (None,
             demo_world\<lparr>ai_calls := ai_calls demo_world + 1,
               comments := comments demo_world @
                 [\<lparr>c_id = comments_id_seq demo_world, c_post_id = Some (p_id demo_post),
                   parent_id = Some (c_id demo_comment), c_content = ''Thank you'',
                   c_author_id = p_author_id demo_post, c_is_blocked = False, c_block_reason = []\<rparr>],
               comments_id_seq := comments_id_seq demo_world + 1,
               events := events demo_world @ [Print (''Auto reply has been created: '' @ ''Thank you'')]\<rparr>)"
    by simp
  from auto_reply_worker[where post_id = 1 and w = demo_world
      and model = "\<lambda>n prompt. Inr blank_reply" and comment_id = 1 and p = demo_post
      and c = demo_comment and reply_content = "'' ''"
      and ?w1.0 = "demo_world\<lparr>ai_calls := 1\<rparr>"] b c gb sb
  have 3: "send_auto_reply_async (\<lambda>n prompt. Inr blank_reply) 1 1 demo_world
          = (Some (ValueError ''Content cannot be an empty string.''),
             demo_world\<lparr>ai_calls := ai_calls demo_world + 1\<rparr>)"
    by simp
  show ?thesis
    unfolding 1 2 3 by (simp add: demo_world_def demo_post_def demo_comment_def)
qed

section \<open>Deleting comments: verified properties\<close>

lemma in_replies:
  "j \<in> set (replies cs i) \<longleftrightarrow> (\<exists>c \<in> set cs. parent_id c = Some i \<and> c_id c = j)"
  by (auto simp: replies_def)

lemma cascade_iterator_sound:
  "\<forall>i \<in> set work \<union> set visited. descendant cs root i \<Longrightarrow>
   \<forall>i \<in> set (cascade_iterator cs work visited). descendant cs root i"
proof (induction cs work visited rule: cascade_iterator.induct)
  case (1 cs visited)
  then show ?case by (simp add: cascade_iterator.simps)
next
  case (2 cs i work visited)
  show ?case
  proof (cases "i \<in> set visited")
    case True
    with 2 show ?thesis by (simp add: cascade_iterator.simps)
  next
    case False
    have "\<forall>j \<in> set (replies cs i @ work) \<union> set (i # visited). descendant cs root j"
      using "2.prems" by (auto simp: in_replies intro: descendant.reply)
    with "2.IH"(2)[OF False] False show ?thesis by (simp add: cascade_iterator.simps)
  qed
qed

lemma cascade_iterator_closed:
  "\<forall>i \<in> set visited. set (replies cs i) \<subseteq> set work \<union> set visited \<Longrightarrow>
   set work \<union> set visited \<subseteq> set (cascade_iterator cs work visited) \<and>
   (\<forall>i \<in> set (cascade_iterator cs work visited).
      set (replies cs i) \<subseteq> set (cascade_iterator cs work visited))"
proof (induction cs work visited rule: cascade_iterator.induct)
  case (1 cs visited)
  then show ?case by (simp add: cascade_iterator.simps)
next
  case (2 cs i work visited)
  show ?case
  proof (cases "i \<in> set visited")
    case True
    have "\<forall>j \<in> set visited. set (replies cs j) \<subseteq> set work \<union> set visited"
      using "2.prems" True by auto
    from "2.IH"(1)[OF True this] True show ?thesis by (auto simp: cascade_iterator.simps)
  next
    case False
    have "\<forall>j \<in> set (i # visited). set (replies cs j) \<subseteq> set (replies cs i @ work) \<union> set (i # visited)"
      using "2.prems" by auto
    from "2.IH"(2)[OF False this] False show ?thesis by (auto simp: cascade_iterator.simps)
  qed
qed

lemma cascade_iterator_complete:
  assumes "descendant cs root i"
  shows "i \<in> set (cascade_iterator cs [root] [])"
  using assms
proof (induction rule: descendant.induct)
  case self
  show ?case using cascade_iterator_closed[of "[]" cs "[root]"] by auto
next
  case (reply i c)
  have "set (replies cs i) \<subseteq> set (cascade_iterator cs [root] [])"
    using cascade_iterator_closed[of "[]" cs "[root]"] reply.IH by auto
  moreover have "c_id c \<in> set (replies cs i)"
    using reply.hyps by (auto simp: in_replies)
  ultimately show ?case by blast
qed

lemma cascade_iterator_descendants:
  "i \<in> set (cascade_iterator cs [root] []) \<longleftrightarrow> descendant cs root i"
  using cascade_iterator_sound[of "[root]" "[]" cs root] cascade_iterator_complete[of cs root i]
  by (auto intro: descendant.self)

lemma descendant_no_replies:
  assumes "replies cs root = []" and "descendant cs root i"
  shows "i = root"
  using assms(2)
proof (induction rule: descendant.induct)
  case self
  show ?case by simp
next
  case (reply i c)
  then have "c_id c \<in> set (replies cs root)" by (auto simp: in_replies)
  with assms(1) show ?case by simp
qed

text \<open>
  Claim C5. A successful delete of a comment removes exactly the comment and every
  descendant reply of its subtree (replies, replies of replies, and so on); when the
  comment has no replies, only the comment itself is removed.
\<close>

theorem delete_comment_cascades:
  assumes "delete_comment comment_id current_user w = (Inr msg, w')"
  shows "comments w' =
           filter (\<lambda>q. \<not> descendant (comments w) comment_id (c_id q)) (comments w)
         \<and> (replies (comments w) comment_id = [] \<longrightarrow>
              comments w' = filter (\<lambda>q. c_id q \<noteq> comment_id) (comments w))"
proof -
  obtain c cs' where f: "filter (\<lambda>c. c_id c = comment_id) (comments w) = c # cs'"
    using assms by (cases "filter (\<lambda>c. c_id c = comment_id) (comments w)")
      (auto simp: delete_comment_def)
  then have "c \<in> set (filter (\<lambda>c. c_id c = comment_id) (comments w))" by simp
  then have cid: "c_id c = comment_id" by simp
  have w': "comments w' =
      filter (\<lambda>q. c_id q \<notin> set (cascade_iterator (comments w) [comment_id] [])) (comments w)"
    using assms f cid by (auto simp: delete_comment_def split: if_splits)
  then have main: "comments w' =
      filter (\<lambda>q. \<not> descendant (comments w) comment_id (c_id q)) (comments w)"
    by (simp add: cascade_iterator_descendants)
  have "comments w' = filter (\<lambda>q. c_id q \<noteq> comment_id) (comments w)"
    if "replies (comments w) comment_id = []"
  proof -
    have "descendant (comments w) comment_id i \<longleftrightarrow> i = comment_id" for i
      using descendant_no_replies[OF that] descendant.self by blast
    with main show ?thesis by simp
  qed
  with main show ?thesis by blast
qed

theorem delete_comment_cascades_witness:
  "comments (snd (delete_comment 1 bob thread_world))
     = filter (\<lambda>q. \<not> descendant (comments thread_world) 1 (c_id q)) (comments thread_world)
   \<and> comments (snd (delete_comment 1 bob thread_world)) = [thread_comment 5 None]
   \<and> comments (snd (delete_comment 5 bob thread_world))
     = [thread_comment 1 None, thread_comment 2 (Some 1), thread_comment 3 (Some 2),
        thread_comment 4 (Some 1)]"
proof -
  have a: "delete_comment 1 bob thread_world
             = (Inr ''Comment deleted successfully'',
                thread_world\<lparr>comments := [thread_comment 5 None]\<rparr>)"
    by (simp add: delete_comment_def thread_world_def thread_comment_def bob_def replies_def
          cascade_iterator.simps)
  have b: "delete_comment 5 bob thread_world
             = (Inr ''Comment deleted successfully'',
                snd (delete_comment 5 bob thread_world))"
    by (simp add: delete_comment_def thread_world_def thread_comment_def bob_def replies_def
          cascade_iterator.simps)
  have r: "replies (comments thread_world) 5 = []"
    by (simp add: thread_world_def thread_comment_def replies_def)
  have c: "comments (snd (delete_comment 5 bob thread_world))
             = filter (\<lambda>q. c_id q \<noteq> 5) (comments thread_world)"
    using delete_comment_cascades[OF b] r by blast
  show ?thesis
    using delete_comment_cascades[OF a] a c
    by (simp add: thread_world_def thread_comment_def)
qed

section \<open>What the moderation dependency leaves untouched\<close>

lemma generate_loop_frame:
  "generate_loop model prompt count resp w = (r, w') \<Longrightarrow>
     posts w' = posts w \<and> comments w' = comments w \<and> posts_id_seq w' = posts_id_seq w \<and>
     comments_id_seq w' = comments_id_seq w \<and> broker w' = broker w"
proof (induction model prompt count resp w rule: generate_loop.induct)
  case (1 model prompt count resp w)
  show ?case
  proof (cases "count \<le> 3 \<and> resp = None")
    case False
    with "1.prems" show ?thesis by (simp add: generate_loop.simps)
  next
    case True
    show ?thesis
    proof (cases "model (ai_calls w) prompt")
      case (Inl e)
      have "generate_loop model prompt count resp w =
              generate_loop model prompt (count + 1) None
                (w\<lparr>ai_calls := ai_calls w + 1,
                   events := events w @
                     [Print (''Error while AI text proceeds:  '' @ e), Sleep 5]\<rparr>)"
        by (subst generate_loop.simps) (simp add: True Inl)
      with "1.prems" "1.IH"(1)[OF True Inl] show ?thesis by simp
    next
      case (Inr x)
      have "generate_loop model prompt count resp w =
              generate_loop model prompt (count + 1) (Some x) (w\<lparr>ai_calls := ai_calls w + 1\<rparr>)"
        by (subst generate_loop.simps) (simp add: True Inr)
      with "1.prems" "1.IH"(2)[OF True Inr] show ?thesis by simp
    qed
  qed
qed

lemma moderate_content_with_ai_frame:
  assumes "moderate_content_with_ai model t w = (v, w')"
  shows "posts w' = posts w \<and> comments w' = comments w \<and> posts_id_seq w' = posts_id_seq w \<and>
         comments_id_seq w' = comments_id_seq w \<and> broker w' = broker w"
proof -
  obtain r w1 where g: "generate_loop model (text_proc t) 0 None w = (r, w1)"
    by (cases "generate_loop model (text_proc t) 0 None w")
  from generate_loop_frame[OF g] assms g show ?thesis
    by (auto simp: moderate_content_with_ai_def split: option.splits)
qed

lemma moderate_content_frame:
  assumes "moderate_content model data w = ((d, b, r), w')"
  shows "d = data \<and> posts w' = posts w \<and> comments w' = comments w \<and>
         posts_id_seq w' = posts_id_seq w \<and> comments_id_seq w' = comments_id_seq w \<and>
         broker w' = broker w"
proof (cases data)
  case (PostCreate t c a dl)
  obtain v1 w1 where m1: "moderate_content_with_ai model t w = (v1, w1)"
    by (cases "moderate_content_with_ai model t w")
  obtain v2 w2 where m2: "moderate_content_with_ai model c w1 = (v2, w2)"
    by (cases "moderate_content_with_ai model c w1")
  from moderate_content_with_ai_frame[OF m1] moderate_content_with_ai_frame[OF m2]
    assms PostCreate m1 m2
  show ?thesis
    by (cases v1; cases v2) (auto simp: moderate_content_def split: if_splits)
next
  case (CommentCreate c p)
  obtain v1 w1 where m1: "moderate_content_with_ai model c w = (v1, w1)"
    by (cases "moderate_content_with_ai model c w")
  from moderate_content_with_ai_frame[OF m1] assms CommentCreate m1
  show ?thesis
    by (cases v1) (auto simp: moderate_content_def)
qed

section \<open>Validation, retrieval and listing: verified properties\<close>

text \<open>
  Claim C6. A creation request whose title or content is empty or whitespace-only is said
  to fail with a 422. For a post it does. For a comment on an existing, unblocked post,
  the \<open>ValueError\<close> of the validator is raised by the constructor before the \<open>try\<close> of
  \<open>create_new_comment\<close> and leaves the handler uncaught, whatever the moderation said:
  the request fails, but not with a 422. Nothing is persisted in either case.
\<close>

theorem blank_comment_is_not_a_422:
  "fst (with_moderation model (CommentCreate '' '' None) (create_comment 1 bob) demo_world)
     = Inl (ValueError ''Content cannot be an empty string.'')
   \<and> comments (snd (with_moderation model (CommentCreate '' '' None) (create_comment 1 bob)
                      demo_world)) = comments demo_world
   \<and> fst (with_moderation model (PostCreate '' '' ''Body'' None None) (create_post alice)
            demo_world)
     = Inl (HTTPException 422 ''Title cannot be an empty string.'')"
proof -
  obtain d b r w1 where m: "moderate_content model (CommentCreate '' '' None) demo_world = ((d, b, r), w1)"
    by (metis prod.exhaust)
  note f = moderate_content_frame[OF m]
  have p: "posts w1 = [demo_post]" "comments w1 = [demo_comment]"
    using f by (simp_all add: demo_world_def)
  have 1: "create_comment 1 bob (CommentCreate '' '' None, b, r) w1
             = (Inl (ValueError ''Content cannot be an empty string.''), w1)"
    by (simp add: create_comment_def create_new_comment_def p demo_post_def
          check_post_blocked_def validate_non_empty_string_def strip_def isspace_def)
  obtain d' b' r' w2 where m': "moderate_content model (PostCreate '' '' ''Body'' None None) demo_world = ((d', b', r'), w2)"
    by (metis prod.exhaust)
  note f' = moderate_content_frame[OF m']
  have 2: "create_post alice (PostCreate '' '' ''Body'' None None, b', r') w2
             = (Inl (HTTPException 422 ''Title cannot be an empty string.''), w2)"
    by (simp add: create_post_def create_new_post_def validate_non_empty_string_def strip_def
          isspace_def except_ValueError_def)
  show ?thesis
    using m m' f f' 1 2 by (simp add: with_moderation_def)
qed

text \<open>
  Claim C7, as stated, fails: fetching a blocked comment or a blocked post by id returns
  the stored row, content included.
\<close>

theorem fetch_returns_blocked_content:
  "get_comment 1 blocked_world = Inr blocked_comment \<and> c_is_blocked blocked_comment \<and>
   c_content blocked_comment = ''You fool'' \<and>
   get_post 1 blocked_world = Inr blocked_post \<and> p_is_blocked blocked_post \<and>
   p_content blocked_post = ''You are all fools''"
  by (simp add: get_comment_def get_post_def blocked_world_def blocked_comment_def
        blocked_post_def)

lemma get_comment_stored:
  assumes "c \<in> set (comments w)" and "c_id c = comment_id"
  shows "\<exists>c'. get_comment comment_id w = Inr c' \<and> c' \<in> set (comments w) \<and> c_id c' = comment_id"
proof -
  from assms have "c \<in> set (filter (\<lambda>c. c_id c = comment_id) (comments w))" by simp
  then obtain c' cs where f: "filter (\<lambda>c. c_id c = comment_id) (comments w) = c' # cs"
    by (cases "filter (\<lambda>c. c_id c = comment_id) (comments w)") auto
  then have "c' \<in> set (filter (\<lambda>c. c_id c = comment_id) (comments w))" by simp
  then have "c' \<in> set (comments w)" "c_id c' = comment_id" by simp_all
  moreover from f have "get_comment comment_id w = Inr c'" by (simp add: get_comment_def)
  ultimately show ?thesis by blast
qed

lemma get_post_stored:
  assumes "p \<in> set (posts w)" and "p_id p = post_id"
  shows "\<exists>p'. get_post post_id w = Inr p' \<and> p' \<in> set (posts w) \<and> p_id p' = post_id"
proof -
  from assms have "p \<in> set (filter (\<lambda>p. p_id p = post_id) (posts w))" by simp
  then obtain p' ps where f: "filter (\<lambda>p. p_id p = post_id) (posts w) = p' # ps"
    by (cases "filter (\<lambda>p. p_id p = post_id) (posts w)") auto
  then have "p' \<in> set (filter (\<lambda>p. p_id p = post_id) (posts w))" by simp
  then have "p' \<in> set (posts w)" "p_id p' = post_id" by simp_all
  moreover from f have "get_post post_id w = Inr p'" by (simp add: get_post_def)
  ultimately show ?thesis by blast
qed

text \<open>
  Claim C7, amended. The response to a create or update request that stores a post or a
  comment as blocked withholds the content: it is a 400 whose detail carries the block
  reason. A fetch by id of a stored row finds it: the handler returns a stored row of that
  id (the row itself when the id is unique, as a primary key is), and the response carries
  its content, its \<open>is_blocked\<close> and its \<open>block_reason\<close> unchanged, for every post and
  for every comment that belongs to a post.
\<close>

theorem blocked_content_masked_on_write:
  "(create_comment post_id u (cmt, True, reason) w = (Inr rc, w')
      \<longrightarrow> rc = JSONResponse (blocked_detail reason) 400) \<and>
   (update_comment comment_id u (cmt, True, reason) w = (Inr rc, w')
      \<longrightarrow> rc = JSONResponse (blocked_detail reason) 400) \<and>
   (create_post u (pst, True, reason) w = (Inr rp, w')
      \<longrightarrow> rp = JSONResponse (blocked_detail reason) 400) \<and>
   (update_post post_id u (pst, True, reason) w = (Inr rp, w')
      \<longrightarrow> rp = JSONResponse (blocked_detail reason) 400) \<and>
   (get_comment comment_id w = Inr c \<longrightarrow> c \<in> set (comments w) \<and> c_id c = comment_id) \<and>
   (get_post post_id w = Inr p \<longrightarrow> p \<in> set (posts w) \<and> p_id p = post_id) \<and>
   (sc \<in> set (comments w) \<and> c_id sc = comment_id \<longrightarrow>
      (\<exists>c'. get_comment comment_id w = Inr c' \<and> c' \<in> set (comments w) \<and>
            c_id c' = comment_id)) \<and>
   (sc \<in> set (comments w) \<and> c_id sc = comment_id \<and>
    (\<forall>q \<in> set (comments w). c_id q = comment_id \<longrightarrow> q = sc)
      \<longrightarrow> get_comment comment_id w = Inr sc) \<and>
   (get_comment comment_id w = Inr c \<and> c_post_id c = Some i \<longrightarrow>
      get_comment_response comment_id w =
        Inr \<lparr>co_post_id = i, co_parent_id = parent_id c, co_id = c_id c,
             co_author_id = c_author_id c, co_is_blocked = c_is_blocked c,
             co_block_reason = c_block_reason c, co_content = c_content c\<rparr>) \<and>
   (sp \<in> set (posts w) \<and> p_id sp = post_id \<longrightarrow>
      (\<exists>p'. get_post post_id w = Inr p' \<and> p' \<in> set (posts w) \<and> p_id p' = post_id)) \<and>
   (sp \<in> set (posts w) \<and> p_id sp = post_id \<and>
    (\<forall>q \<in> set (posts w). p_id q = post_id \<longrightarrow> q = sp)
      \<longrightarrow> get_post post_id w = Inr sp) \<and>
   (get_post post_id w = Inr p \<longrightarrow>
      get_post_response post_id w =
        Inr \<lparr>po_title = title p, po_content = p_content p, po_id = p_id p,
             po_author_id = p_author_id p, po_auto_reply_enabled = auto_reply_enabled p,
             po_reply_delay = reply_delay p, po_is_blocked = p_is_blocked p,
             po_block_reason = p_block_reason p\<rparr>)"
proof (intro conjI impI)
  assume "create_comment post_id u (cmt, True, reason) w = (Inr rc, w')"
  from create_comment_cases[OF this] show "rc = JSONResponse (blocked_detail reason) 400"
    by (auto simp: check_blocked_comment_content_def)
next
  assume "update_comment comment_id u (cmt, True, reason) w = (Inr rc, w')"
  then show "rc = JSONResponse (blocked_detail reason) 400"
    by (auto simp: update_comment_def check_blocked_comment_content_def Let_def
        split: list.splits if_splits sum.splits)
next
  assume "create_post u (pst, True, reason) w = (Inr rp, w')"
  then show "rp = JSONResponse (blocked_detail reason) 400"
    by (auto simp: create_post_def create_new_post_def check_blocked_post_content_def Let_def
        split: body.splits sum.splits)
next
  assume "update_post post_id u (pst, True, reason) w = (Inr rp, w')"
  then show "rp = JSONResponse (blocked_detail reason) 400"
    by (auto simp: update_post_def setattr_loop_def check_blocked_post_content_def
        split: list.splits if_splits sum.splits body.splits)
next
  assume g: "get_comment comment_id w = Inr c"
  then obtain cs where "filter (\<lambda>c. c_id c = comment_id) (comments w) = c # cs"
    by (auto simp: get_comment_def split: list.splits)
  then have "c \<in> set (filter (\<lambda>c. c_id c = comment_id) (comments w))" by simp
  then show "c \<in> set (comments w)" "c_id c = comment_id" by simp_all
next
  assume g: "get_post post_id w = Inr p"
  then obtain ps where "filter (\<lambda>p. p_id p = post_id) (posts w) = p # ps"
    by (auto simp: get_post_def split: list.splits)
  then have "p \<in> set (filter (\<lambda>p. p_id p = post_id) (posts w))" by simp
  then show "p \<in> set (posts w)" "p_id p = post_id" by simp_all
next
  assume "sc \<in> set (comments w) \<and> c_id sc = comment_id"
  then show "\<exists>c'. get_comment comment_id w = Inr c' \<and> c' \<in> set (comments w) \<and>
            c_id c' = comment_id"
    using get_comment_stored by blast
next
  assume a: "sc \<in> set (comments w) \<and> c_id sc = comment_id \<and>
    (\<forall>q \<in> set (comments w). c_id q = comment_id \<longrightarrow> q = sc)"
  then obtain c' where "get_comment comment_id w = Inr c'" "c' \<in> set (comments w)"
      "c_id c' = comment_id"
    using get_comment_stored by blast
  with a show "get_comment comment_id w = Inr sc" by auto
next
  assume "get_comment comment_id w = Inr c \<and> c_post_id c = Some i"
  then show "get_comment_response comment_id w =
        Inr \<lparr>co_post_id = i, co_parent_id = parent_id c, co_id = c_id c,
             co_author_id = c_author_id c, co_is_blocked = c_is_blocked c,
             co_block_reason = c_block_reason c, co_content = c_content c\<rparr>"
    by (simp add: get_comment_response_def CommentOut_from_orm_def)
next
  assume "sp \<in> set (posts w) \<and> p_id sp = post_id"
  then show "\<exists>p'. get_post post_id w = Inr p' \<and> p' \<in> set (posts w) \<and> p_id p' = post_id"
    using get_post_stored by blast
next
  assume a: "sp \<in> set (posts w) \<and> p_id sp = post_id \<and>
    (\<forall>q \<in> set (posts w). p_id q = post_id \<longrightarrow> q = sp)"
  then obtain p' where "get_post post_id w = Inr p'" "p' \<in> set (posts w)"
      "p_id p' = post_id"
    using get_post_stored by blast
  with a show "get_post post_id w = Inr sp" by auto
next
  assume "get_post post_id w = Inr p"
  then show "get_post_response post_id w =
        Inr \<lparr>po_title = title p, po_content = p_content p, po_id = p_id p,
             po_author_id = p_author_id p, po_auto_reply_enabled = auto_reply_enabled p,
             po_reply_delay = reply_delay p, po_is_blocked = p_is_blocked p,
             po_block_reason = p_block_reason p\<rparr>"
    by (simp add: get_post_response_def PostOut_from_orm_def)
qed

theorem blocked_content_masked_on_write_witness:
  "fst (create_comment 1 bob (CommentCreate ''You fool'' None, True, ''HARM_CATEGORY_HARASSMENT'')
          demo_world)
     = Inr (JSONResponse (blocked_detail ''HARM_CATEGORY_HARASSMENT'') 400) \<and>
   fst (update_comment 1 bob (CommentCreate ''You fool'' None, True, ''HARM_CATEGORY_HARASSMENT'')
          demo_world)
     = Inr (JSONResponse (blocked_detail ''HARM_CATEGORY_HARASSMENT'') 400) \<and>
   fst (create_post alice (PostCreate ''Rant'' ''You fool'' None None, True,
          ''HARM_CATEGORY_HARASSMENT'') demo_world)
     = Inr (JSONResponse (blocked_detail ''HARM_CATEGORY_HARASSMENT'') 400) \<and>
   fst (update_post 1 alice (PostCreate ''Rant'' ''You fool'' None None, True,
          ''HARM_CATEGORY_HARASSMENT'') demo_world)
     = Inr (JSONResponse (blocked_detail ''HARM_CATEGORY_HARASSMENT'') 400) \<and>
   get_comment 1 blocked_world = Inr blocked_comment \<and>
   get_comment_response 1 blocked_world =
     Inr \<lparr>co_post_id = 1, co_parent_id = None, co_id = 1, co_author_id = 2,
          co_is_blocked = True, co_block_reason = ''HARM_CATEGORY_HARASSMENT'',
          co_content = ''You fool''\<rparr> \<and>
   get_post 1 blocked_world = Inr blocked_post \<and>
   get_post_response 1 blocked_world =
     Inr \<lparr>po_title = ''Rant'', po_content = ''You are all fools'', po_id = 1,
          po_author_id = 1, po_auto_reply_enabled = False, po_reply_delay = 0,
          po_is_blocked = True, po_block_reason = ''HARM_CATEGORY_HARASSMENT''\<rparr>"
proof -
  let ?R = "''HARM_CATEGORY_HARASSMENT''"
  let ?c = "CommentCreate ''You fool'' None"
  let ?p = "PostCreate ''Rant'' ''You fool'' None None"
  obtain r1 w1 where a1: "create_comment 1 bob (?c, True, ?R) demo_world = (r1, w1)"
    by (cases "create_comment 1 bob (?c, True, ?R) demo_world")
  then obtain x1 where b1: "r1 = Inr x1"
    by (auto simp: create_comment_def create_new_comment_def demo_world_def demo_post_def
          bob_def check_post_blocked_def validate_non_empty_string_def strip_def isspace_def
          Let_def)
  obtain r2 w2 where a2: "update_comment 1 bob (?c, True, ?R) demo_world = (r2, w2)"
    by (cases "update_comment 1 bob (?c, True, ?R) demo_world")
  then obtain x2 where b2: "r2 = Inr x2"
    by (auto simp: update_comment_def demo_world_def demo_comment_def bob_def
          validate_non_empty_string_def strip_def isspace_def Let_def)
  obtain r3 w3 where a3: "create_post alice (?p, True, ?R) demo_world = (r3, w3)"
    by (cases "create_post alice (?p, True, ?R) demo_world")
  then obtain x3 where b3: "r3 = Inr x3"
    by (auto simp: create_post_def create_new_post_def validate_non_empty_string_def strip_def
          isspace_def Let_def)
  obtain r4 w4 where a4: "update_post 1 alice (?p, True, ?R) demo_world = (r4, w4)"
    by (cases "update_post 1 alice (?p, True, ?R) demo_world")
  then obtain x4 where b4: "r4 = Inr x4"
    by (auto simp: update_post_def setattr_loop_def demo_world_def demo_post_def alice_def
          validate_non_empty_string_def strip_def isspace_def)
  note t1 = blocked_content_masked_on_write[where post_id = 1 and u = bob and cmt = ?c
      and reason = ?R and w = demo_world and rc = x1 and w' = w1, THEN conjunct1]
  note t2 = blocked_content_masked_on_write[where comment_id = 1 and u = bob and cmt = ?c
      and reason = ?R and w = demo_world and rc = x2 and w' = w2,
      THEN conjunct2, THEN conjunct1]
  note t3 = blocked_content_masked_on_write[where u = alice and pst = ?p
      and reason = ?R and w = demo_world and rp = x3 and w' = w3,
      THEN conjunct2, THEN conjunct2, THEN conjunct1]
  note t4 = blocked_content_masked_on_write[where post_id = 1 and u = alice and pst = ?p
      and reason = ?R and w = demo_world and rp = x4 and w' = w4,
      THEN conjunct2, THEN conjunct2, THEN conjunct2, THEN conjunct1]
  have writes:
    "r1 = Inr (JSONResponse (blocked_detail ?R) 400)" "r2 = Inr (JSONResponse (blocked_detail ?R) 400)"
    "r3 = Inr (JSONResponse (blocked_detail ?R) 400)" "r4 = Inr (JSONResponse (blocked_detail ?R) 400)"
    using t1 t2 t3 t4 a1 a2 a3 a4 b1 b2 b3 b4 by simp_all
  note rest = blocked_content_masked_on_write[where comment_id = 1 and post_id = 1
      and w = blocked_world and c = blocked_comment and sc = blocked_comment
      and p = blocked_post and sp = blocked_post and i = 1,
      THEN conjunct2, THEN conjunct2, THEN conjunct2, THEN conjunct2, THEN conjunct2,
      THEN conjunct2, THEN conjunct2]
  have sc: "blocked_comment \<in> set (comments blocked_world) \<and> c_id blocked_comment = 1 \<and>
            (\<forall>q \<in> set (comments blocked_world). c_id q = 1 \<longrightarrow> q = blocked_comment)"
    by (simp add: blocked_world_def blocked_comment_def)
  have sp: "blocked_post \<in> set (posts blocked_world) \<and> p_id blocked_post = 1 \<and>
            (\<forall>q \<in> set (posts blocked_world). p_id q = 1 \<longrightarrow> q = blocked_post)"
    by (simp add: blocked_world_def blocked_post_def)
  have gc: "get_comment 1 blocked_world = Inr blocked_comment"
    using rest[THEN conjunct1] sc by blast
  have gp: "get_post 1 blocked_world = Inr blocked_post"
    using rest[THEN conjunct2, THEN conjunct2, THEN conjunct2, THEN conjunct1] sp by blast
  have pc: "c_post_id blocked_comment = Some 1" by (simp add: blocked_comment_def)
  have rc: "get_comment_response 1 blocked_world =
      Inr \<lparr>co_post_id = 1, co_parent_id = parent_id blocked_comment, co_id = c_id blocked_comment,
           co_author_id = c_author_id blocked_comment, co_is_blocked = c_is_blocked blocked_comment,
           co_block_reason = c_block_reason blocked_comment,
           co_content = c_content blocked_comment\<rparr>"
    using rest[THEN conjunct2, THEN conjunct1] gc pc by blast
  have rp: "get_post_response 1 blocked_world =
      Inr \<lparr>po_title = title blocked_post, po_content = p_content blocked_post,
           po_id = p_id blocked_post, po_author_id = p_author_id blocked_post,
           po_auto_reply_enabled = auto_reply_enabled blocked_post,
           po_reply_delay = reply_delay blocked_post, po_is_blocked = p_is_blocked blocked_post,
           po_block_reason = p_block_reason blocked_post\<rparr>"
    using rest[THEN conjunct2, THEN conjunct2, THEN conjunct2, THEN conjunct2] gp by blast
  show ?thesis
    using writes a1 a2 a3 a4 gc gp rc rp
    by (simp add: blocked_comment_def blocked_post_def)
qed

text \<open>
  Claim C8. The post listing returns exactly the stored posts that are not blocked, in
  stored order; the comment listing of a post returns every stored comment of that post,
  blocked or not, as stored.
\<close>

theorem listings:
  "list_posts w = filter (\<lambda>p. \<not> p_is_blocked p) (posts w) \<and>
   (p \<in> set (list_posts w)) = (p \<in> set (posts w) \<and> \<not> p_is_blocked p) \<and>
   get_all_comments post_id w = filter (\<lambda>c. c_post_id c = Some post_id) (comments w) \<and>
   (c \<in> set (get_all_comments post_id w)) = (c \<in> set (comments w) \<and> c_post_id c = Some post_id)"
  by (auto simp: list_posts_def get_all_comments_def)

section \<open>The verdicts of the moderation gate\<close>

lemma ratings_loop_verdict:
  "ratings_loop rs = Some (b, r) \<Longrightarrow> b \<and> r \<noteq> []"
proof (induction rs)
  case Nil
  then show ?case by simp
next
  case (Cons x xs)
  show ?case
  proof (cases "probability x \<ge> 2")
    case True
    with Cons.prems show ?thesis
      by (auto simp: safety_categories_def Let_def split: option.splits if_splits)
  next
    case False
    with Cons show ?thesis by (simp add: Let_def)
  qed
qed

lemma inspect_candidates_verdict:
  "inspect_candidates cs = (b, r) \<Longrightarrow> b = (r \<noteq> [])"
proof (cases cs)
  case Nil
  assume "inspect_candidates cs = (b, r)"
  with Nil show ?thesis by auto
next
  case (Cons c cs')
  assume a: "inspect_candidates cs = (b, r)"
  show ?thesis
  proof (cases "ratings_loop (safety_ratings c)")
    case None
    with a Cons show ?thesis by auto
  next
    case (Some v)
    with a Cons have "ratings_loop (safety_ratings c) = Some (b, r)" by simp
    from ratings_loop_verdict[OF this] show ?thesis by simp
  qed
qed

lemma moderate_content_with_ai_verdict:
  assumes "moderate_content_with_ai model t w = ((b, r), w')"
  shows "b = (r \<noteq> [])"
proof -
  obtain resp w1 where g: "generate_loop model (text_proc t) 0 None w = (resp, w1)"
    by (cases "generate_loop model (text_proc t) 0 None w")
  show ?thesis
  proof (cases resp)
    case None
    with assms g show ?thesis by (auto simp: moderate_content_with_ai_def)
  next
    case (Some x)
    show ?thesis
    proof (cases "candidates x")
      case None
      with assms g Some show ?thesis by (auto simp: moderate_content_with_ai_def)
    next
      case (Some cs)
      with assms g \<open>resp = Some x\<close> have "inspect_candidates cs = (b, r)"
        by (auto simp: moderate_content_with_ai_def)
      then show ?thesis by (rule inspect_candidates_verdict)
    qed
  qed
qed

lemma moderate_content_verdict:
  assumes "moderate_content model data w = ((d, b, r), w')"
  shows "b = (r \<noteq> [])"
proof (cases data)
  case (PostCreate t c a dl)
  obtain b1 r1 w1 where m1: "moderate_content_with_ai model t w = ((b1, r1), w1)"
    by (metis prod.exhaust)
  obtain b2 r2 w2 where m2: "moderate_content_with_ai model c w1 = ((b2, r2), w2)"
    by (metis prod.exhaust)
  from moderate_content_with_ai_verdict[OF m1] moderate_content_with_ai_verdict[OF m2]
    assms PostCreate m1 m2
  show ?thesis by (auto simp: moderate_content_def split: if_splits)
next
  case (CommentCreate c p)
  obtain b1 r1 w1 where m1: "moderate_content_with_ai model c w = ((b1, r1), w1)"
    by (metis prod.exhaust)
  from moderate_content_with_ai_verdict[OF m1] assms CommentCreate m1
  show ?thesis by (auto simp: moderate_content_def)
qed

lemma clean_gate:
  "moderate_content_with_ai (\<lambda>n prompt. Inr clean_response) t w
     = ((False, []), w\<lparr>ai_calls := ai_calls w + 1\<rparr>)"
  by (simp add: moderate_content_with_ai_def generate_loop_answers clean_response_def)

lemma flagged_gate:
  "moderate_content_with_ai (\<lambda>n prompt. Inr flagged_response) t w
     = ((True, ''HARM_CATEGORY_HARASSMENT''), w\<lparr>ai_calls := ai_calls w + 1\<rparr>)"
  by (simp add: moderate_content_with_ai_def generate_loop_answers flagged_response_def
        safety_categories_def)

section \<open>Updates\<close>

lemma setattr_loop_keeps:
  "setattr_loop p data = Inr p' \<Longrightarrow>
     p_id p' = p_id p \<and> p_is_blocked p' = p_is_blocked p \<and> p_block_reason p' = p_block_reason p"
  by (auto simp: setattr_loop_def split: body.splits sum.splits)

lemma update_post_cases:
  assumes "update_post post_id u (data, b, r) w = (res, w')"
  shows "(\<exists>e. res = Inl e \<and> w' = w) \<or>
         (\<exists>p'. res = Inr (check_blocked_post_content p') \<and> p_id p' = post_id \<and>
               p_is_blocked p' = b \<and> p_block_reason p' = r \<and>
               (\<exists>q \<in> set (posts w). p_id q = post_id) \<and>
               w' = w\<lparr>posts := map (\<lambda>q. if p_id q = post_id then p' else q) (posts w)\<rparr>)"
proof (cases "filter (\<lambda>p. p_id p = post_id) (posts w)")
  case Nil
  with assms show ?thesis by (auto simp: update_post_def)
next
  case (Cons p ps)
  then have "p \<in> set (filter (\<lambda>p. p_id p = post_id) (posts w))" by simp
  then have pin: "p \<in> set (posts w)" and pid: "p_id p = post_id" by simp_all
  show ?thesis
  proof (cases "setattr_loop (p\<lparr>p_is_blocked := b, p_block_reason := r\<rparr>) data")
    case (Inl e)
    with assms Cons show ?thesis by (auto simp: update_post_def split: if_splits)
  next
    case (Inr p')
    from setattr_loop_keeps[OF Inr] pid
    have k: "p_id p' = post_id" "p_is_blocked p' = b" "p_block_reason p' = r" by simp_all
    show ?thesis
    proof (cases "p_author_id p \<noteq> u_id u")
      case True
      with assms Cons show ?thesis by (auto simp: update_post_def)
    next
      case False
      with assms Cons Inr have "res = Inr (check_blocked_post_content p') \<and>
          w' = w\<lparr>posts := map (\<lambda>q. if p_id q = post_id then p' else q) (posts w)\<rparr>"
        by (auto simp: update_post_def)
      with k pin pid show ?thesis by blast
    qed
  qed
qed

lemma update_comment_cases:
  assumes "update_comment comment_id u (data, b, r) w = (res, w')"
  shows "(\<exists>e. res = Inl e \<and> w' = w) \<or>
         (\<exists>c'. res = Inr (check_blocked_comment_content c') \<and> c_id c' = comment_id \<and>
               c_is_blocked c' = b \<and> c_block_reason c' = r \<and>
               (\<exists>q \<in> set (comments w). c_id q = comment_id) \<and>
               w' = w\<lparr>comments := map (\<lambda>q. if c_id q = comment_id then c' else q) (comments w)\<rparr>)"
proof (cases "filter (\<lambda>c. c_id c = comment_id) (comments w)")
  case Nil
  with assms show ?thesis by (auto simp: update_comment_def)
next
  case (Cons c cs)
  then have "c \<in> set (filter (\<lambda>c. c_id c = comment_id) (comments w))" by simp
  then have cin: "c \<in> set (comments w)" and cid: "c_id c = comment_id" by simp_all
  show ?thesis
  proof (cases "c_author_id c \<noteq> u_id u \<or>
                isl (validate_non_empty_string ''Content'' (body_content data))")
    case True
    with assms Cons show ?thesis
      by (auto simp: update_comment_def split: sum.splits if_splits)
  next
    case False
    then obtain v where v: "validate_non_empty_string ''Content'' (body_content data) = Inr v"
      by (cases "validate_non_empty_string ''Content'' (body_content data)") auto
    let ?c' = "c\<lparr>c_content := v, c_is_blocked := b, c_block_reason := r\<rparr>"
    from assms Cons False v have "res = Inr (check_blocked_comment_content ?c') \<and>
        w' = w\<lparr>comments := map (\<lambda>q. if c_id q = comment_id then ?c' else q) (comments w)\<rparr>"
      by (auto simp: update_comment_def Let_def)
    moreover have "c_id ?c' = comment_id" "c_is_blocked ?c' = b" "c_block_reason ?c' = r"
      using cid by simp_all
    ultimately show ?thesis using cin cid by blast
  qed
qed

lemma filter_replaced_posts:
  "p_id p' = i \<Longrightarrow>
   filter (\<lambda>q. p_id q = i) (map (\<lambda>q. if p_id q = i then p' else q) ps)
     = map (\<lambda>q. p') (filter (\<lambda>q. p_id q = i) ps)"
  by (induction ps) auto

lemma filter_replaced_comments:
  "c_id c' = i \<Longrightarrow>
   filter (\<lambda>q. c_id q = i) (map (\<lambda>q. if c_id q = i then c' else q) cs)
     = map (\<lambda>q. c') (filter (\<lambda>q. c_id q = i) cs)"
  by (induction cs) auto

text \<open>
  Claim C10. After a successful update of a post or of a comment, the stored row of that
  id carries the verdict that the moderation dependency returned for the submitted body,
  whatever the row held before; a verdict that does not block leaves \<open>is_blocked = False\<close>
  with an empty \<open>block_reason\<close>.
\<close>

theorem update_overwrites_block_state:
  "(with_moderation model data (update_post post_id u) w = (Inr rp, w') \<longrightarrow>
      (\<exists>p'. get_post post_id w' = Inr p' \<and>
            (p_is_blocked p', p_block_reason p') = snd (fst (moderate_content model data w)) \<and>
            (\<not> p_is_blocked p' \<longrightarrow> p_block_reason p' = []) \<and>
            (\<forall>q \<in> set (posts w'). p_id q = post_id \<longrightarrow> q = p'))) \<and>
   (with_moderation model data (update_comment comment_id u) w = (Inr rc, w') \<longrightarrow>
      (\<exists>c'. get_comment comment_id w' = Inr c' \<and>
            (c_is_blocked c', c_block_reason c') = snd (fst (moderate_content model data w)) \<and>
            (\<not> c_is_blocked c' \<longrightarrow> c_block_reason c' = []) \<and>
            (\<forall>q \<in> set (comments w'). c_id q = comment_id \<longrightarrow> q = c')))"
proof -
  obtain d b r w1 where m: "moderate_content model data w = ((d, b, r), w1)"
    by (metis prod.exhaust)
  note f = moderate_content_frame[OF m]
  note v = moderate_content_verdict[OF m]
  have post: "\<exists>p'. get_post post_id w' = Inr p' \<and>
            (p_is_blocked p', p_block_reason p') = snd (fst (moderate_content model data w)) \<and>
            (\<not> p_is_blocked p' \<longrightarrow> p_block_reason p' = []) \<and>
            (\<forall>q \<in> set (posts w'). p_id q = post_id \<longrightarrow> q = p')"
    if h: "with_moderation model data (update_post post_id u) w = (Inr rp, w')"
  proof -
    from h m f have "update_post post_id u (data, b, r) w1 = (Inr rp, w')"
      by (simp add: with_moderation_def)
    from update_post_cases[OF this] obtain p' where p':
      "p_id p' = post_id" "p_is_blocked p' = b" "p_block_reason p' = r"
      "\<exists>q \<in> set (posts w1). p_id q = post_id"
      "w' = w1\<lparr>posts := map (\<lambda>q. if p_id q = post_id then p' else q) (posts w1)\<rparr>"
      by auto
    from p'(4) obtain q qs where "filter (\<lambda>q. p_id q = post_id) (posts w1) = q # qs"
      by (cases "filter (\<lambda>q. p_id q = post_id) (posts w1)") (auto simp: filter_empty_conv)
    then have "get_post post_id w' = Inr p'"
      using p'(1,5) by (simp add: get_post_def filter_replaced_posts)
    moreover have "\<forall>q \<in> set (posts w'). p_id q = post_id \<longrightarrow> q = p'"
      using p'(5) by auto
    ultimately show ?thesis using p'(2,3) m v by auto
  qed
  have cmt: "\<exists>c'. get_comment comment_id w' = Inr c' \<and>
            (c_is_blocked c', c_block_reason c') = snd (fst (moderate_content model data w)) \<and>
            (\<not> c_is_blocked c' \<longrightarrow> c_block_reason c' = []) \<and>
            (\<forall>q \<in> set (comments w'). c_id q = comment_id \<longrightarrow> q = c')"
    if h: "with_moderation model data (update_comment comment_id u) w = (Inr rc, w')"
  proof -
    from h m f have "update_comment comment_id u (data, b, r) w1 = (Inr rc, w')"
      by (simp add: with_moderation_def)
    from update_comment_cases[OF this] obtain c' where c':
      "c_id c' = comment_id" "c_is_blocked c' = b" "c_block_reason c' = r"
      "\<exists>q \<in> set (comments w1). c_id q = comment_id"
      "w' = w1\<lparr>comments := map (\<lambda>q. if c_id q = comment_id then c' else q) (comments w1)\<rparr>"
      by auto
    from c'(4) obtain q qs where "filter (\<lambda>q. c_id q = comment_id) (comments w1) = q # qs"
      by (cases "filter (\<lambda>q. c_id q = comment_id) (comments w1)") (auto simp: filter_empty_conv)
    then have "get_comment comment_id w' = Inr c'"
      using c'(1,5) by (simp add: get_comment_def filter_replaced_comments)
    moreover have "\<forall>q \<in> set (comments w'). c_id q = comment_id \<longrightarrow> q = c'"
      using c'(5) by auto
    ultimately show ?thesis using c'(2,3) m v by auto
  qed
  from post cmt show ?thesis by blast
qed

theorem update_overwrites_block_state_witness:
  "get_comment 1 (snd (with_moderation (\<lambda>n prompt. Inr clean_response)
                        (CommentCreate ''Sorry'' None) (update_comment 1 bob) blocked_world))
     = Inr (blocked_comment\<lparr>c_content := ''Sorry'', c_is_blocked := False, c_block_reason := []\<rparr>)
   \<and> get_post 1 (snd (with_moderation (\<lambda>n prompt. Inr clean_response)
                        (PostCreate ''Rant'' ''Calm words'' None None) (update_post 1 alice)
                        blocked_world))
     = Inr (blocked_post\<lparr>p_content := ''Calm words'', p_is_blocked := False,
                         p_block_reason := []\<rparr>)"
proof -
  let ?m = "\<lambda>n prompt. Inr clean_response :: string + response"
  let ?c' = "blocked_comment\<lparr>c_content := ''Sorry'', c_is_blocked := False, c_block_reason := []\<rparr>"
  let ?p' = "blocked_post\<lparr>p_content := ''Calm words'', p_is_blocked := False,
                           p_block_reason := []\<rparr>"
  have mc: "moderate_content ?m (CommentCreate ''Sorry'' None) blocked_world
              = ((CommentCreate ''Sorry'' None, False, []), blocked_world\<lparr>ai_calls := 1\<rparr>)"
    by (simp add: moderate_content_def clean_gate blocked_world_def)
  have mp: "moderate_content ?m (PostCreate ''Rant'' ''Calm words'' None None) blocked_world
              = ((PostCreate ''Rant'' ''Calm words'' None None, False, []),
                 blocked_world\<lparr>ai_calls := 2\<rparr>)"
    by (simp add: moderate_content_def clean_gate blocked_world_def)
  have uc: "with_moderation ?m (CommentCreate ''Sorry'' None) (update_comment 1 bob) blocked_world
              = (Inr (Obj ?c'), blocked_world\<lparr>ai_calls := 1, comments := [?c']\<rparr>)"
    unfolding with_moderation_def mc
    by (simp add: update_comment_def blocked_world_def
          blocked_comment_def bob_def validate_non_empty_string_def strip_def isspace_def
          check_blocked_comment_content_def Let_def)
  have up: "with_moderation ?m (PostCreate ''Rant'' ''Calm words'' None None) (update_post 1 alice)
              blocked_world
              = (Inr (Obj ?p'), blocked_world\<lparr>ai_calls := 2, posts := [?p']\<rparr>)"
    unfolding with_moderation_def mp
    by (simp add: update_post_def setattr_loop_def blocked_world_def
          blocked_post_def alice_def validate_non_empty_string_def strip_def isspace_def
          check_blocked_post_content_def)
  from update_overwrites_block_state[where model = ?m and data = "CommentCreate ''Sorry'' None"
      and comment_id = 1 and u = bob and w = blocked_world and rc = "Obj ?c'"
      and w' = "blocked_world\<lparr>ai_calls := 1, comments := [?c']\<rparr>", THEN conjunct2] uc
  obtain c' where c': "get_comment 1 (blocked_world\<lparr>ai_calls := 1, comments := [?c']\<rparr>) = Inr c'"
    "\<forall>q \<in> set (comments (blocked_world\<lparr>ai_calls := 1, comments := [?c']\<rparr>)). c_id q = 1 \<longrightarrow> q = c'"
    by blast
  from c'(2) have "c' = ?c'" by (simp add: blocked_comment_def)
  with c'(1) uc have 1: "get_comment 1 (snd (with_moderation ?m (CommentCreate ''Sorry'' None)
      (update_comment 1 bob) blocked_world)) = Inr ?c'" by simp
  from update_overwrites_block_state[where model = ?m
      and data = "PostCreate ''Rant'' ''Calm words'' None None"
      and post_id = 1 and u = alice and w = blocked_world and rp = "Obj ?p'"
      and w' = "blocked_world\<lparr>ai_calls := 2, posts := [?p']\<rparr>", THEN conjunct1] up
  obtain p' where p': "get_post 1 (blocked_world\<lparr>ai_calls := 2, posts := [?p']\<rparr>) = Inr p'"
    "\<forall>q \<in> set (posts (blocked_world\<lparr>ai_calls := 2, posts := [?p']\<rparr>)). p_id q = 1 \<longrightarrow> q = p'"
    by blast
  from p'(2) have "p' = ?p'" by (simp add: blocked_post_def)
  with p'(1) up have 2: "get_post 1 (snd (with_moderation ?m
      (PostCreate ''Rant'' ''Calm words'' None None) (update_post 1 alice) blocked_world))
      = Inr ?p'" by simp
  from 1 2 show ?thesis by simp
qed

section \<open>The block-reason invariant\<close>

lemma create_post_keeps_reason:
  assumes "blocked_has_reason w" and "b \<longrightarrow> r \<noteq> []"
  shows "blocked_has_reason (snd (create_post u (d, b, r) w))"
  using assms
  by (auto simp: create_post_def create_new_post_def blocked_has_reason_def Let_def
      split: body.splits sum.splits)

lemma update_post_keeps_reason:
  assumes "blocked_has_reason w" and "b \<longrightarrow> r \<noteq> []"
  shows "blocked_has_reason (snd (update_post i u (d, b, r) w))"
proof -
  obtain res w' where h: "update_post i u (d, b, r) w = (res, w')"
    by (cases "update_post i u (d, b, r) w")
  from update_post_cases[OF h] assms have "blocked_has_reason w'"
    by (auto simp: blocked_has_reason_def)
  with h show ?thesis by simp
qed

lemma delete_post_keeps_reason:
  assumes "blocked_has_reason w"
  shows "blocked_has_reason (snd (delete_post i u w))"
  using assms
  by (auto simp: delete_post_def blocked_has_reason_def split: list.splits)

lemma create_comment_keeps_reason:
  assumes "blocked_has_reason w" and "b \<longrightarrow> r \<noteq> []"
  shows "blocked_has_reason (snd (create_comment i u (d, b, r) w))"
proof -
  obtain res w' where h: "create_comment i u (d, b, r) w = (res, w')"
    by (cases "create_comment i u (d, b, r) w")
  from create_comment_cases[OF h] assms have "blocked_has_reason w'"
    by (auto simp: blocked_has_reason_def)
  with h show ?thesis by simp
qed

lemma update_comment_keeps_reason:
  assumes "blocked_has_reason w" and "b \<longrightarrow> r \<noteq> []"
  shows "blocked_has_reason (snd (update_comment i u (d, b, r) w))"
proof -
  obtain res w' where h: "update_comment i u (d, b, r) w = (res, w')"
    by (cases "update_comment i u (d, b, r) w")
  from update_comment_cases[OF h] assms have "blocked_has_reason w'"
    by (auto simp: blocked_has_reason_def)
  with h show ?thesis by simp
qed

lemma delete_comment_keeps_reason:
  assumes "blocked_has_reason w"
  shows "blocked_has_reason (snd (delete_comment i u w))"
  using assms
  by (auto simp: delete_comment_def blocked_has_reason_def split: list.splits)

lemma send_auto_reply_try_cases:
  assumes "send_auto_reply_try model i j w = (res, w')"
  shows "posts w' = posts w \<and>
         (comments w' = comments w \<or>
          (\<exists>c. comments w' = comments w @ [c] \<and> \<not> c_is_blocked c))"
proof -
  have g: "posts w1 = posts w \<and> comments w1 = comments w"
    if "generate_relevant_reply model p c w = (x, w1)" for p c x w1
    using generate_relevant_reply_calls[OF that] by simp
  show ?thesis
  proof (cases "scalar_one (filter (\<lambda>p. p_id p = i) (posts w))")
    case (Inl e)
    with assms show ?thesis by (simp add: send_auto_reply_try_def)
  next
    case (Inr p)
    note p = this
    show ?thesis
    proof (cases "scalar_one (filter (\<lambda>c. c_id c = j) (comments w))")
      case (Inl e)
      with assms p show ?thesis by (simp add: send_auto_reply_try_def)
    next
      case (Inr c)
      obtain x w1 where gr: "generate_relevant_reply model p c w = (x, w1)"
        by (cases "generate_relevant_reply model p c w")
      from g[OF gr] assms p Inr gr show ?thesis
        by (auto simp: send_auto_reply_try_def Let_def split: sum.splits)
    qed
  qed
qed

lemma send_auto_reply_keeps_reason:
  assumes "blocked_has_reason w"
  shows "blocked_has_reason (snd (send_auto_reply model i j w))"
proof -
  obtain res w1 where t: "send_auto_reply_try model i j w = (res, w1)"
    by (cases "send_auto_reply_try model i j w")
  from send_auto_reply_try_cases[OF t] assms have "blocked_has_reason w1"
    by (auto simp: blocked_has_reason_def)
  with t show ?thesis
    by (auto simp: send_auto_reply_def send_auto_reply_async_def blocked_has_reason_def
        split: sum.splits exn.splits)
qed

lemma with_moderation_keeps_reason:
  assumes inv: "blocked_has_reason w"
    and h: "\<And>d b r w1. blocked_has_reason w1 \<Longrightarrow> (b \<longrightarrow> r \<noteq> [])
              \<Longrightarrow> blocked_has_reason (snd (handler (d, b, r) w1))"
  shows "blocked_has_reason (snd (with_moderation model data handler w))"
proof -
  obtain d b r w1 where m: "moderate_content model data w = ((d, b, r), w1)"
    by (metis prod.exhaust)
  from moderate_content_frame[OF m] inv have "blocked_has_reason w1"
    by (simp add: blocked_has_reason_def)
  moreover from moderate_content_verdict[OF m] have "b \<longrightarrow> r \<noteq> []" by simp
  ultimately have "blocked_has_reason (snd (handler (d, b, r) w1))" by (rule h)
  with m show ?thesis by (simp add: with_moderation_def)
qed

lemma step_keeps_reason:
  "blocked_has_reason w \<Longrightarrow> blocked_has_reason (step model req w)"
proof (cases req)
  case (CreatePost u b)
  assume "blocked_has_reason w"
  then show ?thesis unfolding CreatePost step.simps
    by (rule with_moderation_keeps_reason) (rule create_post_keeps_reason)
next
  case (UpdatePost i u b)
  assume "blocked_has_reason w"
  then show ?thesis unfolding UpdatePost step.simps
    by (rule with_moderation_keeps_reason) (rule update_post_keeps_reason)
next
  case (CreateComment i u b)
  assume "blocked_has_reason w"
  then show ?thesis unfolding CreateComment step.simps
    by (rule with_moderation_keeps_reason) (rule create_comment_keeps_reason)
next
  case (UpdateComment i u b)
  assume "blocked_has_reason w"
  then show ?thesis unfolding UpdateComment step.simps
    by (rule with_moderation_keeps_reason) (rule update_comment_keeps_reason)
qed (simp_all add: delete_post_keeps_reason delete_comment_keeps_reason
       send_auto_reply_keeps_reason)

lemma run_keeps_reason:
  "blocked_has_reason w \<Longrightarrow> blocked_has_reason (run model reqs w)"
  by (induction reqs arbitrary: w) (simp_all add: step_keeps_reason)

text \<open>
  Claim C9. Every operation of the system (creation, update and deletion of posts and
  comments, the reads, and the auto-reply worker) preserves the invariant that a blocked
  post or comment has a non-empty block reason; the invariant holds in every state reached
  from the empty store.
\<close>

theorem blocked_always_has_reason:
  "(blocked_has_reason w \<longrightarrow> blocked_has_reason (step model req w)) \<and>
   blocked_has_reason (run model reqs empty_world)"
proof -
  have "blocked_has_reason empty_world"
    by (simp add: blocked_has_reason_def empty_world_def)
  then have "blocked_has_reason (run model reqs empty_world)" by (rule run_keeps_reason)
  then show ?thesis using step_keeps_reason by blast
qed

theorem blocked_always_has_reason_witness:
  "blocked_has_reason (step (\<lambda>n prompt. Inr flagged_response)
                         (CreateComment 1 bob (CommentCreate ''You fool'' None)) demo_world)
   \<and> comments (step (\<lambda>n prompt. Inr flagged_response)
                 (CreateComment 1 bob (CommentCreate ''You fool'' None)) demo_world)
     = [demo_comment,
        \<lparr>c_id = 2, c_post_id = Some 1, parent_id = None, c_content = ''You fool'',
          c_author_id = 2, c_is_blocked = True,
          c_block_reason = ''HARM_CATEGORY_HARASSMENT''\<rparr>]"
proof -
  have inv: "blocked_has_reason demo_world"
    by (simp add: blocked_has_reason_def demo_world_def demo_post_def demo_comment_def)
  have 1: "blocked_has_reason (step (\<lambda>n prompt. Inr flagged_response)
                         (CreateComment 1 bob (CommentCreate ''You fool'' None)) demo_world)"
    using blocked_always_has_reason[where w = demo_world
        and model = "\<lambda>n prompt. Inr flagged_response"
        and req = "CreateComment 1 bob (CommentCreate ''You fool'' None)"] inv
    by blast
  have 2: "comments (step (\<lambda>n prompt. Inr flagged_response)
                 (CreateComment 1 bob (CommentCreate ''You fool'' None)) demo_world)
     = [demo_comment,
        \<lparr>c_id = 2, c_post_id = Some 1, parent_id = None, c_content = ''You fool'',
          c_author_id = 2, c_is_blocked = True,
          c_block_reason = ''HARM_CATEGORY_HARASSMENT''\<rparr>]"
    by (simp add: with_moderation_def moderate_content_def flagged_gate create_comment_def
          create_new_comment_def demo_world_def demo_post_def bob_def check_post_blocked_def
          validate_non_empty_string_def strip_def isspace_def check_blocked_comment_content_def
          Let_def)
  from 1 2 show ?thesis by simp
qed

end
